theory Spec2Isabelle
  imports
    Complex_Main
    "HOL-Library.Word"
    "HOL-Library.Signed_Division"
    "HOL-Library.Multiset"
    "HOL-Library.List_Lexorder"
    "HOL-Library.Char_ord"
    "HOL-Library.AList"
begin

section \<open>The remote-read handler of the Elasticsearch adapter (reader/handler.go)\<close>

text \<open>
  The embedding follows \<^verbatim>\<open>src/reader/handler.go\<close>: \<^verbatim>\<open>buildKey\<close>,
  \<^verbatim>\<open>responseToTimeseries\<close> and \<^verbatim>\<open>Handle\<close>. A Go panic (a failed type
  assertion, a method call on a nil interface) is the value \<open>None\<close> of an option, or the
  outcome \<open>Panicked\<close> of the handler. The packages the handler calls (snappy, proto,
  the store client, \<^verbatim>\<open>time.Parse\<close>, the response writer) are parameters.
\<close>

subsection \<open>Rows\<close>

text \<open>
  A row is a Go \<^verbatim>\<open>map[string]interface{}\<close>: an association list, read in the order in
  which \<^verbatim>\<open>range\<close> visits the entries (an order Go leaves open; a Go map holds each key
  once). A dynamic value is a string, a \<^verbatim>\<open>float64\<close> (carried as it is, of any type
  \<open>'f\<close>: the handler never computes on it) or anything else. A key that is absent reads as
  the nil interface, on which every type assertion panics.
\<close>

datatype 'f iface = IString string | IFloat64 'f | IOther

type_synonym 'f datapoint = "(string \<times> 'f iface) list"

definition assertString :: "'f iface option \<Rightarrow> string option" where
  \<comment> \<open>\<^verbatim>\<open>v.(string)\<close>; \<open>None\<close> is the panic\<close>
  "assertString v = (case v of Some (IString s) \<Rightarrow> Some s | _ \<Rightarrow> None)"

definition assertFloat64 :: "'f iface option \<Rightarrow> 'f option" where
  \<comment> \<open>\<^verbatim>\<open>v.(float64)\<close>; \<open>None\<close> is the panic\<close>
  "assertFloat64 v = (case v of Some (IFloat64 x) \<Rightarrow> Some x | _ \<Rightarrow> None)"

subsection \<open>buildKey\<close>

fun strings_Join :: "string list \<Rightarrow> string \<Rightarrow> string" where
  "strings_Join [] sep = []"
| "strings_Join [x] sep = x"
| "strings_Join (x # y # ys) sep = x @ sep @ strings_Join (y # ys) sep"

definition sort_Strings :: "string list \<Rightarrow> string list" where
  \<comment> \<open>\<^verbatim>\<open>sort.Strings\<close>: ascending in the bytewise order of Go's \<^verbatim>\<open><\<close> on strings\<close>
  "sort_Strings keys = sort keys"

fun buildKey_loop :: "'f datapoint \<Rightarrow> string list \<Rightarrow> string list option" where
  "buildKey_loop [] keys = Some keys"
| "buildKey_loop ((k, v) # rest) keys =
     (if k \<noteq> ''value'' \<and> k \<noteq> ''timestamp''
      then (case assertString (Some v) of
              None \<Rightarrow> None
            | Some s \<Rightarrow> buildKey_loop rest (keys @ [s]))
      else buildKey_loop rest keys)"

definition buildKey :: "'f datapoint \<Rightarrow> string option" where
  "buildKey datapoint =
     (case buildKey_loop datapoint [] of
        None \<Rightarrow> None
      | Some keys \<Rightarrow> Some (strings_Join (sort_Strings keys) '',''))"

subsection \<open>Times\<close>

text \<open>
  A \<^verbatim>\<open>time.Time\<close> is an instant: whole seconds since the Unix epoch and nanoseconds
  within the second. \<^verbatim>\<open>t.UTC()\<close> changes the location only, so it is the identity
  here. \<^verbatim>\<open>UnixNano\<close> computes in \<^verbatim>\<open>int64\<close> and wraps around.
\<close>

record Time =
  unixSec :: int
  nsec :: int

definition zeroTime :: Time where
  \<comment> \<open>\<^verbatim>\<open>time.Time{}\<close>: January 1, year 1, 00:00:00 UTC\<close>
  "zeroTime = \<lparr>unixSec = - 62135596800, nsec = 0\<rparr>"

definition UnixNano :: "Time \<Rightarrow> 64 word" where
  "UnixNano t = word_of_int (unixSec t) * 1000000000 + word_of_int (nsec t)"

definition Millisecond :: "64 word" where
  "Millisecond = 1000000"

definition int64_div :: "64 word \<Rightarrow> 64 word \<Rightarrow> 64 word" where
  \<comment> \<open>Go's \<^verbatim>\<open>/\<close> on \<^verbatim>\<open>int64\<close>: the quotient truncated towards zero (the divisor
      here is the non-zero constant \<^verbatim>\<open>int64(time.Millisecond)\<close>)\<close>
  "int64_div a b = word_of_int (sint a sdiv sint b)"

text \<open>
  A model of \<^verbatim>\<open>time.Parse(time.RFC3339, _)\<close> of Go's standard library, for running
  the handler on concrete rows. It reads the date-time of RFC 3339 as the library's own
  RFC 3339 reader does: \<^verbatim>\<open>YYYY-MM-DDTHH:MM:SS\<close>, an optional fraction of a second,
  then \<^verbatim>\<open>Z\<close> or a numeric offset \<^verbatim>\<open>+HH:MM\<close> or \<^verbatim>\<open>-HH:MM\<close>, each field
  within its range. What the library does on other strings differs between its releases and
  is not modelled: the theorems about every row take the parser as a parameter.
\<close>

definition isDigit :: "char \<Rightarrow> bool" where
  "isDigit c = (CHR ''0'' \<le> c \<and> c \<le> CHR ''9'')"

definition atoi :: "string \<Rightarrow> int" where
  "atoi s = foldl (\<lambda>x c. x * 10 + (int (of_char c) - 48)) 0 s"

definition parseUint :: "string \<Rightarrow> int \<Rightarrow> int \<Rightarrow> int option" where
  "parseUint s lo hi =
     (if list_all isDigit s \<and> lo \<le> atoi s \<and> atoi s \<le> hi then Some (atoi s) else None)"

definition isLeap :: "int \<Rightarrow> bool" where
  "isLeap year = (year mod 4 = 0 \<and> (year mod 400 = 0 \<or> year mod 100 \<noteq> 0))"

definition daysIn :: "int \<Rightarrow> int \<Rightarrow> int" where
  "daysIn month year =
     (if month = 2 then (if isLeap year then 29 else 28)
      else if month = 4 \<or> month = 6 \<or> month = 9 \<or> month = 11 then 30 else 31)"

definition daysSinceEpoch :: "int \<Rightarrow> int \<Rightarrow> int \<Rightarrow> int" where
  \<comment> \<open>days from 1970-01-01 to the given day of the proleptic Gregorian calendar\<close>
  "daysSinceEpoch year month day =
     (let y = (if month \<le> 2 then year - 1 else year);
          era = y div 400;
          yoe = y - era * 400;
          doy = (153 * (if month > 2 then month - 3 else month + 9) + 2) div 5 + day - 1;
          doe = yoe * 365 + yoe div 4 - yoe div 100 + doy
      in era * 146097 + doe - 719468)"

definition Date :: "int \<Rightarrow> int \<Rightarrow> int \<Rightarrow> int \<Rightarrow> int \<Rightarrow> int \<Rightarrow> int \<Rightarrow> Time" where
  \<comment> \<open>\<^verbatim>\<open>time.Date(year, month, day, hour, min, sec, nsec, time.UTC)\<close>\<close>
  "Date year month day hour mi sec ns =
     \<lparr>unixSec = daysSinceEpoch year month day * 86400 + hour * 3600 + mi * 60 + sec,
      nsec = ns\<rparr>"

definition parseNanoseconds :: "string \<Rightarrow> int" where
  \<comment> \<open>the digits of a fraction of a second: nine are kept, fewer are scaled up\<close>
  "parseNanoseconds ds = atoi (take 9 ds) * 10 ^ (9 - length (take 9 ds))"

definition parseZone :: "string \<Rightarrow> int option" where
  \<comment> \<open>the offset from UTC in seconds\<close>
  "parseZone s =
     (if s = ''Z'' then Some 0
      else if length s = 6 \<and> (s ! 0 = CHR ''+'' \<or> s ! 0 = CHR ''-'') \<and> s ! 3 = CHR '':''
      then (case (parseUint (take 2 (drop 1 s)) 0 23, parseUint (take 2 (drop 4 s)) 0 59) of
              (Some hr, Some mm) \<Rightarrow>
                Some ((if s ! 0 = CHR ''-'' then - 1 else 1) * ((hr * 60 + mm) * 60))
            | _ \<Rightarrow> None)
      else None)"

definition parseRFC3339 :: "string \<Rightarrow> Time option" where
  "parseRFC3339 s =
     (if length s < 19 then None
      else
        (case (parseUint (take 4 s) 0 9999, parseUint (take 2 (drop 5 s)) 1 12) of
           (Some year, Some month) \<Rightarrow>
             (case (parseUint (take 2 (drop 8 s)) 1 (daysIn month year),
                    parseUint (take 2 (drop 11 s)) 0 23,
                    parseUint (take 2 (drop 14 s)) 0 59,
                    parseUint (take 2 (drop 17 s)) 0 59) of
                (Some day, Some hour, Some mi, Some sec) \<Rightarrow>
                  if s ! 4 = CHR ''-'' \<and> s ! 7 = CHR ''-'' \<and> s ! 10 = CHR ''T'' \<and>
                     s ! 13 = CHR '':'' \<and> s ! 16 = CHR '':''
                  then
                    (let rest = drop 19 s;
                         frac = (if 2 \<le> length rest \<and> rest ! 0 = CHR ''.'' \<and> isDigit (rest ! 1)
                                 then takeWhile isDigit (drop 1 rest) else []);
                         ns = (if frac = [] then 0 else parseNanoseconds frac);
                         zone = (if frac = [] then rest else drop (1 + length frac) rest)
                     in case parseZone zone of
                          None \<Rightarrow> None
                        | Some zoneOffset \<Rightarrow>
                            (let t = Date year month day hour mi sec ns
                             in Some (t\<lparr>unixSec := unixSec t - zoneOffset\<rparr>)))
                  else None
              | _ \<Rightarrow> None)
         | _ \<Rightarrow> None))"

subsection \<open>responseToTimeseries\<close>

record Label =
  Label_Name :: string
  Label_Value :: string

record 'f Sample =
  Sample_Timestamp :: "64 word"
  Sample_Value :: 'f

record 'f TimeSeries =
  Labels :: "Label list"
  Samples :: "'f Sample list"

fun labelPairs_loop :: "'f datapoint \<Rightarrow> Label list \<Rightarrow> Label list option" where
  "labelPairs_loop [] labelPairs = Some labelPairs"
| "labelPairs_loop ((k, v) # rest) labelPairs =
     (if k \<noteq> ''value'' \<and> k \<noteq> ''timestamp''
      then (case assertString (Some v) of
              None \<Rightarrow> None
            | Some s \<Rightarrow>
                labelPairs_loop rest (labelPairs @ [\<lparr>Label_Name = k, Label_Value = s\<rparr>]))
      else labelPairs_loop rest labelPairs)"

text \<open>
  \<^verbatim>\<open>labelsToSeries\<close> maps a key to a pointer to its series. It is an association list
  in the order of first insertion; appending to \<^verbatim>\<open>ts.Samples\<close> through the pointer
  is an update of the entry. \<open>time_Parse\<close> stands for
  \<^verbatim>\<open>time.Parse(time.RFC3339, _)\<close>: \<open>None\<close> when it returns an error, in which
  case the time it returns is \<^verbatim>\<open>time.Time{}\<close> and the handler drops the error.
\<close>

definition responseToTimeseries_body ::
  "(string \<Rightarrow> Time option) \<Rightarrow> 'f datapoint \<Rightarrow> (string \<times> 'f TimeSeries) list
     \<Rightarrow> (string \<times> 'f TimeSeries) list option" where
  "responseToTimeseries_body time_Parse datapoint labelsToSeries =
     (case buildKey datapoint of
        None \<Rightarrow> None
      | Some key \<Rightarrow>
     (case (case map_of labelsToSeries key of
              Some ts \<Rightarrow> Some (ts, labelsToSeries)
            | None \<Rightarrow>
                (case labelPairs_loop datapoint [] of
                   None \<Rightarrow> None
                 | Some labelPairs \<Rightarrow>
                     let ts = \<lparr>Labels = labelPairs, Samples = []\<rparr>
                     in Some (ts, AList.update key ts labelsToSeries))) of
        None \<Rightarrow> None
      | Some (ts, labelsToSeries') \<Rightarrow>
     (case assertString (map_of datapoint ''timestamp'') of
        None \<Rightarrow> None
      | Some s \<Rightarrow>
     (let t = (case time_Parse s of Some t \<Rightarrow> t | None \<Rightarrow> zeroTime);
          timeInMillis = int64_div (UnixNano t) Millisecond
      in case assertFloat64 (map_of datapoint ''value'') of
           None \<Rightarrow> None
         | Some v \<Rightarrow>
             Some (AList.update key
                     (ts\<lparr>Samples := Samples ts @
                        [\<lparr>Sample_Timestamp = timeInMillis, Sample_Value = v\<rparr>]\<rparr>)
                     labelsToSeries')))))"

fun responseToTimeseries_loop ::
  "(string \<Rightarrow> Time option) \<Rightarrow> 'f datapoint list \<Rightarrow> (string \<times> 'f TimeSeries) list
     \<Rightarrow> (string \<times> 'f TimeSeries) list option" where
  "responseToTimeseries_loop time_Parse [] labelsToSeries = Some labelsToSeries"
| "responseToTimeseries_loop time_Parse (datapoint # rest) labelsToSeries =
     (case responseToTimeseries_body time_Parse datapoint labelsToSeries of
        None \<Rightarrow> None
      | Some labelsToSeries' \<Rightarrow> responseToTimeseries_loop time_Parse rest labelsToSeries')"

definition responseToTimeseries ::
  "(string \<Rightarrow> Time option) \<Rightarrow> 'f datapoint list \<Rightarrow> 'f TimeSeries list option" where
  \<comment> \<open>the final \<^verbatim>\<open>range\<close> over the map is read in the order of first insertion\<close>
  "responseToTimeseries time_Parse dataPoints =
     (case responseToTimeseries_loop time_Parse dataPoints [] of
        None \<Rightarrow> None
      | Some labelsToSeries \<Rightarrow> Some (map snd labelsToSeries))"

subsection \<open>Handle\<close>

text \<open>
  A Go \<^verbatim>\<open>error\<close> is nil (\<open>None\<close>) or a value with its text. Calling
  \<^verbatim>\<open>Error()\<close> on the nil interface panics.
\<close>

type_synonym bytes = "8 word list"

type_synonym error = "string option"

definition err_Error :: "error \<Rightarrow> string option" where
  \<comment> \<open>\<^verbatim>\<open>err.Error()\<close>; \<open>None\<close> is the panic\<close>
  "err_Error err = (case err of None \<Rightarrow> None | Some msg \<Rightarrow> Some msg)"

record 'q ReadRequest =
  Queries :: "'q list"

record 'f QueryResult =
  Timeseries :: "'f TimeSeries list"

record 'f ReadResponse =
  Results :: "'f QueryResult list"

text \<open>
  What the handler calls and does not define: each call returns its values and its error, as
  in Go. \<open>ioutil_ReadAll\<close> is the outcome of reading \<^verbatim>\<open>r.Body\<close>;
  \<open>reader_Read\<close> is the \<^verbatim>\<open>Read\<close> of the client that
  \<^verbatim>\<open>config.BuildClient()\<close> returns; \<open>w_Write\<close> is the error of
  \<^verbatim>\<open>w.Write\<close>. Logging and the duration timer are left out.
\<close>

record ('q, 'f) world =
  ioutil_ReadAll :: "bytes \<times> error"
  snappy_Decode :: "bytes \<Rightarrow> bytes \<times> error"
  proto_Unmarshal :: "bytes \<Rightarrow> 'q ReadRequest \<times> error"
  reader_Read :: "'q ReadRequest \<Rightarrow> 'f datapoint list \<times> error"
  time_Parse :: "string \<Rightarrow> Time option"
  proto_Marshal :: "'f ReadResponse \<Rightarrow> bytes \<times> error"
  snappy_Encode :: "bytes \<Rightarrow> bytes"
  w_Write :: "bytes \<Rightarrow> error"

text \<open>
  The handler's effects, in the order they happen: the calls on the response writer
  (\<^verbatim>\<open>http.Error(w, message, code)\<close>, \<^verbatim>\<open>w.Header().Set\<close>, \<^verbatim>\<open>w.Write\<close>)
  and the calls of the store client's \<^verbatim>\<open>Read\<close>. The handler returns to its
  caller or panics.
\<close>

datatype 'q call =
    Http_Error string nat
  | Header_Set string string
  | Write bytes
  | Read "'q ReadRequest"

datatype 'q outcome = Returned "'q call list" | Panicked "'q call list"

definition StatusBadRequest :: nat where
  "StatusBadRequest = 400"

definition StatusInternalServerError :: nat where
  "StatusInternalServerError = 500"

definition http_Error_return :: "'q call list \<Rightarrow> error \<Rightarrow> nat \<Rightarrow> 'q outcome" where
  \<comment> \<open>\<^verbatim>\<open>http.Error(w, err.Error(), code); return\<close> after the calls made so far\<close>
  "http_Error_return calls err code =
     (case err_Error err of
        None \<Rightarrow> Panicked calls
      | Some msg \<Rightarrow> Returned (calls @ [Http_Error msg code]))"

definition Handle :: "('q, 'f) world \<Rightarrow> 'q outcome" where
  "Handle e =
     (let (compressed, err) = ioutil_ReadAll e in
      if err \<noteq> None then http_Error_return [] err StatusBadRequest
      else
      let (reqBuf, err) = snappy_Decode e compressed in
      if err \<noteq> None then http_Error_return [] err StatusBadRequest
      else
      let (req, err1) = proto_Unmarshal e reqBuf in
      if err1 \<noteq> None then http_Error_return [] err StatusBadRequest
      else
      if length (Queries req) \<noteq> 1
      then Returned [Http_Error ''Can only handle one query.'' StatusBadRequest]
      else
      let (datapoints, err) = reader_Read e req in
      if err \<noteq> None then http_Error_return [Read req] err StatusInternalServerError
      else
      case responseToTimeseries (time_Parse e) datapoints of
        None \<Rightarrow> Panicked [Read req]
      | Some timeseries \<Rightarrow>
      let resp = \<lparr>Results = [\<lparr>Timeseries = timeseries\<rparr>]\<rparr>;
          (data, err) = proto_Marshal e resp in
      if err \<noteq> None then http_Error_return [Read req] err StatusInternalServerError
      else
      let compressed = snappy_Encode e data;
          calls = [Read req,
                  Header_Set ''Content-Type'' ''application/x-protobuf'',
                  Header_Set ''Content-Encoding'' ''snappy'',
                  Write compressed];
          err = w_Write e compressed in
      if err \<noteq> None then http_Error_return calls err StatusInternalServerError
      else Returned calls)"

section \<open>The notions of the specification\<close>

subsection \<open>Rows, label values and samples\<close>

text \<open>
  The label fields of a row are its entries other than the reserved \<^verbatim>\<open>value\<close> and
  \<^verbatim>\<open>timestamp\<close>. The row precondition of the specification: every label value is a
  string, \<^verbatim>\<open>value\<close> is a number and \<^verbatim>\<open>timestamp\<close> is a string.
\<close>

definition labelFields :: "'f datapoint \<Rightarrow> 'f datapoint" where
  "labelFields datapoint = filter (\<lambda>(k, v). k \<noteq> ''value'' \<and> k \<noteq> ''timestamp'') datapoint"

definition labelsOK :: "'f datapoint \<Rightarrow> bool" where
  "labelsOK datapoint = list_all (\<lambda>(k, v). assertString (Some v) \<noteq> None) (labelFields datapoint)"

definition labelValues :: "'f datapoint \<Rightarrow> string list" where
  "labelValues datapoint = [s. (k, IString s) \<leftarrow> labelFields datapoint]"

definition labelPairsOf :: "'f datapoint \<Rightarrow> Label list" where
  "labelPairsOf datapoint =
     [\<lparr>Label_Name = k, Label_Value = s\<rparr>. (k, IString s) \<leftarrow> labelFields datapoint]"

definition rowOK :: "'f datapoint \<Rightarrow> bool" where
  "rowOK datapoint =
     (labelsOK datapoint \<and> assertFloat64 (map_of datapoint ''value'') \<noteq> None \<and>
      assertString (map_of datapoint ''timestamp'') \<noteq> None)"

definition commaFree :: "string \<Rightarrow> bool" where
  "commaFree s = (CHR '','' \<notin> set s)"

text \<open>
  The sample a row stands for, the rows of a key in the order of the input, their samples,
  and the series of a key: the label pairs of the first row of the key, and the samples of all
  its rows in the order of the input.
\<close>

definition sampleOf :: "(string \<Rightarrow> Time option) \<Rightarrow> 'f datapoint \<Rightarrow> 'f Sample option" where
  "sampleOf parse datapoint =
     (case (assertString (map_of datapoint ''timestamp''),
            assertFloat64 (map_of datapoint ''value'')) of
        (Some s, Some v) \<Rightarrow>
          Some \<lparr>Sample_Timestamp =
                   int64_div (UnixNano (case parse s of Some t \<Rightarrow> t | None \<Rightarrow> zeroTime))
                     Millisecond,
                 Sample_Value = v\<rparr>
      | _ \<Rightarrow> None)"

definition rowsOf :: "string \<Rightarrow> 'f datapoint list \<Rightarrow> 'f datapoint list" where
  "rowsOf key dataPoints = filter (\<lambda>datapoint. buildKey datapoint = Some key) dataPoints"

definition samplesOf ::
  "(string \<Rightarrow> Time option) \<Rightarrow> string \<Rightarrow> 'f datapoint list \<Rightarrow> 'f Sample list" where
  "samplesOf parse key dataPoints = List.map_filter (sampleOf parse) (rowsOf key dataPoints)"

definition seriesOf ::
  "(string \<Rightarrow> Time option) \<Rightarrow> string \<Rightarrow> 'f datapoint list \<Rightarrow> 'f TimeSeries option" where
  "seriesOf parse key dataPoints =
     (case rowsOf key dataPoints of
        [] \<Rightarrow> None
      | datapoint # _ \<Rightarrow>
          Some \<lparr>Labels = labelPairsOf datapoint, Samples = samplesOf parse key dataPoints\<rparr>)"

definition totalSamples :: "'f TimeSeries list \<Rightarrow> nat" where
  "totalSamples timeseries = sum_list (map (\<lambda>ts. length (Samples ts)) timeseries)"

subsection \<open>What a run of the handler did\<close>

definition callsOf :: "'q outcome \<Rightarrow> 'q call list" where
  "callsOf out = (case out of Returned calls \<Rightarrow> calls | Panicked calls \<Rightarrow> calls)"

definition storeReads :: "'q call list \<Rightarrow> 'q ReadRequest list" where
  "storeReads calls = [req. Read req \<leftarrow> calls]"

definition bodiesWritten :: "'q call list \<Rightarrow> bytes list" where
  "bodiesWritten calls = [body. Write body \<leftarrow> calls]"

section \<open>Example rows and runs\<close>

definition row_host_a :: "real datapoint" where
  "row_host_a = [(''host'', IString ''a''), (''value'', IFloat64 1),
     (''timestamp'', IString ''2024-01-01T00:00:00Z'')]"

definition row_host_a2 :: "real datapoint" where
  "row_host_a2 = [(''host'', IString ''a''), (''value'', IFloat64 2),
     (''timestamp'', IString ''2024-01-01T00:01:00Z'')]"

definition row_host_b :: "real datapoint" where
  "row_host_b = [(''host'', IString ''b''), (''value'', IFloat64 3),
     (''timestamp'', IString ''2024-01-01T00:00:00Z'')]"

definition scenario_rows :: "real datapoint list" where
  "scenario_rows = [row_host_a, row_host_a2, row_host_b]"

definition row_node_a :: "real datapoint" where
  "row_node_a = [(''node'', IString ''a''), (''value'', IFloat64 2),
     (''timestamp'', IString ''2024-01-01T00:01:00Z'')]"

definition row_two_x :: "real datapoint" where
  "row_two_x = [(''instance'', IString ''x''), (''job'', IString ''x''), (''value'', IFloat64 1),
     (''timestamp'', IString ''2024-01-01T00:00:00Z'')]"

definition row_one_x :: "real datapoint" where
  "row_one_x = [(''host'', IString ''x''), (''value'', IFloat64 2),
     (''timestamp'', IString ''2024-01-01T00:01:00Z'')]"

definition row_comma :: "real datapoint" where
  "row_comma = [(''path'', IString ''x,y''), (''value'', IFloat64 1),
     (''timestamp'', IString ''2024-01-01T00:00:00Z'')]"

definition row_x_y :: "real datapoint" where
  "row_x_y = [(''a'', IString ''x''), (''b'', IString ''y''), (''value'', IFloat64 2),
     (''timestamp'', IString ''2024-01-01T00:01:00Z'')]"

definition row_y_x :: "real datapoint" where
  "row_y_x = [(''timestamp'', IString ''2024-01-01T00:02:00Z''), (''zone'', IString ''y''),
     (''node'', IString ''x''), (''value'', IFloat64 3)]"

definition row_empty_value :: "real datapoint" where
  "row_empty_value = [(''host'', IString []), (''value'', IFloat64 1),
     (''timestamp'', IString ''2024-01-01T00:00:00Z'')]"

definition row_no_label :: "real datapoint" where
  "row_no_label = [(''value'', IFloat64 2), (''timestamp'', IString ''2024-01-01T00:01:00Z'')]"

definition row_bad_timestamp :: "real datapoint" where
  "row_bad_timestamp = [(''host'', IString ''a''), (''value'', IFloat64 5),
     (''timestamp'', IString ''yesterday'')]"

text \<open>
  Runs of the handler. The codecs are not modelled: a world fixes what each call returns,
  and the bytes that \<open>proto_Marshal\<close> and \<open>snappy_Encode\<close> return stand for the encoded
  response.
  In \<open>world_ok\<close> the body is the snappy block of a request with one (empty) query, the
  store returns the rows of the scenario, and nothing fails. In \<open>world_bad_proto\<close> the body
  \<^verbatim>\<open>01 00 ff\<close> is the snappy block of the single byte \<^verbatim>\<open>ff\<close>, which is not a
  protocol message.
\<close>

definition world_ok :: "(string, real) world" where
  "world_ok =
     \<lparr>ioutil_ReadAll = ([2, 4, 10, 0], None),
      snappy_Decode = (\<lambda>compressed. ([10, 0], None)),
      proto_Unmarshal = (\<lambda>reqBuf. (\<lparr>Queries = [''q'']\<rparr>, None)),
      reader_Read = (\<lambda>req. (scenario_rows, None)),
      time_Parse = parseRFC3339,
      proto_Marshal = (\<lambda>resp. ([10, 0], None)),
      snappy_Encode = (\<lambda>data. 2 # 4 # data),
      w_Write = (\<lambda>body. None)\<rparr>"

definition world_two_queries :: "(string, real) world" where
  "world_two_queries =
     world_ok\<lparr>ioutil_ReadAll := ([4, 12, 10, 0, 10, 0], None),
              snappy_Decode := (\<lambda>compressed. ([10, 0, 10, 0], None)),
              proto_Unmarshal := (\<lambda>reqBuf. (\<lparr>Queries = [''q1'', ''q2'']\<rparr>, None))\<rparr>"

definition world_bad_proto :: "(string, real) world" where
  "world_bad_proto =
     world_ok\<lparr>ioutil_ReadAll := ([1, 0, 255], None),
              snappy_Decode := (\<lambda>compressed. ([255], None)),
              proto_Unmarshal := (\<lambda>reqBuf. (\<lparr>Queries = []\<rparr>, Some ''unexpected EOF''))\<rparr>"

definition world_store_down :: "(string, real) world" where
  "world_store_down = world_ok\<lparr>reader_Read := (\<lambda>req. ([], Some ''connection refused''))\<rparr>"

definition world_numeric_label :: "(string, real) world" where
  "world_numeric_label =
     world_ok\<lparr>reader_Read := (\<lambda>req.
        ([[(''port'', IFloat64 9090), (''value'', IFloat64 1),
           (''timestamp'', IString ''2024-01-01T00:00:00Z'')]], None))\<rparr>"

section \<open>Properties\<close>

lemmas row_defs =
  rowOK_def labelsOK_def labelFields_def labelValues_def labelPairsOf_def
  assertString_def assertFloat64_def

lemmas parse_defs =
  parseRFC3339_def parseUint_def isDigit_def atoi_def daysIn_def isLeap_def parseZone_def
  Date_def daysSinceEpoch_def parseNanoseconds_def less_eq_char_def

lemmas run_defs =
  responseToTimeseries_def responseToTimeseries_body_def buildKey_def sort_Strings_def
  assertString_def assertFloat64_def UnixNano_def Millisecond_def int64_div_def
  signed_divide_int_def zeroTime_def Let_def

lemmas example_rows =
  scenario_rows_def row_host_a_def row_host_a2_def row_host_b_def

lemmas Handle_defs =
  Handle_def http_Error_return_def err_Error_def StatusBadRequest_def
  StatusInternalServerError_def

subsection \<open>The two loops over the fields of a row\<close>

lemma buildKey_loop_eq:
  "labelsOK dp \<Longrightarrow> buildKey_loop dp keys = Some (keys @ labelValues dp)"
proof (induction dp arbitrary: keys)
  case Nil
  then show ?case by (simp add: labelValues_def labelFields_def)
next
  case (Cons a dp)
  obtain k v where a: "a = (k, v)" by (cases a)
  from Cons.prems have ok: "labelsOK dp"
    by (simp add: labelsOK_def labelFields_def a split: if_splits)
  show ?case
  proof (cases "k \<noteq> ''value'' \<and> k \<noteq> ''timestamp''")
    case True
    with Cons.prems obtain s where v: "v = IString s"
      by (cases v) (simp_all add: labelsOK_def labelFields_def a assertString_def)
    from True v show ?thesis
      using Cons.IH [OF ok, of "keys @ [s]"]
      by (simp add: a assertString_def labelValues_def labelFields_def)
  next
    case False
    then show ?thesis
      using Cons.IH [OF ok, of keys]
      by (auto simp: a labelValues_def labelFields_def)
  qed
qed

lemma labelPairs_loop_eq:
  "labelsOK dp \<Longrightarrow> labelPairs_loop dp acc = Some (acc @ labelPairsOf dp)"
proof (induction dp arbitrary: acc)
  case Nil
  then show ?case by (simp add: labelPairsOf_def labelFields_def)
next
  case (Cons a dp)
  obtain k v where a: "a = (k, v)" by (cases a)
  from Cons.prems have ok: "labelsOK dp"
    by (simp add: labelsOK_def labelFields_def a split: if_splits)
  show ?case
  proof (cases "k \<noteq> ''value'' \<and> k \<noteq> ''timestamp''")
    case True
    with Cons.prems obtain s where v: "v = IString s"
      by (cases v) (simp_all add: labelsOK_def labelFields_def a assertString_def)
    from True v show ?thesis
      using Cons.IH [OF ok, of "acc @ [\<lparr>Label_Name = k, Label_Value = s\<rparr>]"]
      by (simp add: a assertString_def labelPairsOf_def labelFields_def)
  next
    case False
    then show ?thesis
      using Cons.IH [OF ok, of acc]
      by (auto simp: a labelPairsOf_def labelFields_def)
  qed
qed

lemma buildKey_eq:
  "labelsOK dp \<Longrightarrow> buildKey dp = Some (strings_Join (sort (labelValues dp)) '','')"
  by (simp add: buildKey_def buildKey_loop_eq sort_Strings_def)

lemma rowOK_buildKey: "rowOK dp \<Longrightarrow> \<exists>key. buildKey dp = Some key"
  by (simp add: rowOK_def buildKey_eq)

lemma sampleOf_Some: "rowOK dp \<Longrightarrow> \<exists>smp. sampleOf p dp = Some smp"
  by (auto simp: rowOK_def sampleOf_def split: option.splits)

subsection \<open>Joining strings with a comma\<close>

lemma strings_Join_Cons:
  "strings_Join (x # xs) sep = x @ (if xs = [] then [] else sep @ strings_Join xs sep)"
  by (cases xs) simp_all

lemma takeWhile_Join:
  "commaFree x \<Longrightarrow> takeWhile (\<lambda>c. c \<noteq> CHR '','') (strings_Join (x # xs) '','') = x"
  by (simp add: strings_Join_Cons commaFree_def takeWhile_append)

lemma dropWhile_Join:
  "commaFree x \<Longrightarrow>
   dropWhile (\<lambda>c. c \<noteq> CHR '','') (strings_Join (x # xs) '','') =
     (if xs = [] then [] else '','' @ strings_Join xs '','')"
  by (auto simp: strings_Join_Cons commaFree_def dropWhile_append)

lemma strings_Join_inj:
  "list_all commaFree xs \<Longrightarrow> list_all commaFree ys \<Longrightarrow> xs \<noteq> [] \<Longrightarrow> ys \<noteq> [] \<Longrightarrow>
   strings_Join xs '','' = strings_Join ys '','' \<Longrightarrow> xs = ys"
proof (induction xs arbitrary: ys)
  case Nil
  then show ?case by simp
next
  case (Cons x xs)
  from Cons.prems(4) obtain y ys' where ys: "ys = y # ys'" by (cases ys) auto
  from Cons.prems(1) have cx: "commaFree x" and cxs: "list_all commaFree xs" by simp_all
  from Cons.prems(2) ys have cy: "commaFree y" and cys: "list_all commaFree ys'" by simp_all
  from Cons.prems(5) ys have eq: "strings_Join (x # xs) '','' = strings_Join (y # ys') '',''"
    by simp
  have "x = y"
    using arg_cong [OF eq, of "takeWhile (\<lambda>c. c \<noteq> CHR '','')"]
    by (simp only: takeWhile_Join [OF cx] takeWhile_Join [OF cy])
  have tl: "(if xs = [] then [] else '','' @ strings_Join xs '','') =
            (if ys' = [] then [] else '','' @ strings_Join ys' '','')"
    using arg_cong [OF eq, of "dropWhile (\<lambda>c. c \<noteq> CHR '','')"]
    by (simp only: dropWhile_Join [OF cx] dropWhile_Join [OF cy])
  show ?case
  proof (cases "xs = []")
    case True
    with tl have "ys' = []" by (auto split: if_splits)
    with True \<open>x = y\<close> ys show ?thesis by simp
  next
    case False
    with tl have ne: "ys' \<noteq> []" and "strings_Join xs '','' = strings_Join ys' '',''"
      by (auto split: if_splits)
    from Cons.IH [OF cxs cys False ne this(2)] \<open>x = y\<close> ys show ?thesis by simp
  qed
qed

lemma strings_Join_eq_Nil:
  "list_all commaFree xs \<Longrightarrow> strings_Join xs '','' = [] \<longleftrightarrow> xs = [] \<or> xs = [[]]"
  by (cases xs) (auto simp: strings_Join_Cons)

lemma strings_Join_eq_iff:
  assumes "list_all commaFree xs" and "list_all commaFree ys"
  shows "strings_Join xs '','' = strings_Join ys '','' \<longleftrightarrow>
     xs = ys \<or> (xs = [] \<and> ys = [[]]) \<or> (xs = [[]] \<and> ys = [])"
proof (cases "xs = []")
  case True
  with strings_Join_eq_Nil [OF assms(2)] show ?thesis
    by (simp add: eq_commute [of "[]"])
next
  case xs: False
  show ?thesis
  proof (cases "ys = []")
    case True
    with strings_Join_eq_Nil [OF assms(1)] show ?thesis by simp
  next
    case False
    with xs strings_Join_inj [OF assms] show ?thesis by blast
  qed
qed

lemma sort_eq_iff: "sort xs = sort ys \<longleftrightarrow> mset xs = mset ys"
  by (metis mset_sort properties_for_sort sorted_sort)

lemma sort_eq_single: "sort xs = [x] \<longleftrightarrow> xs = [x]"
  by (metis mset_sort mset_single_iff_right sorted_list_of_multiset_mset
      sorted_list_of_multiset_singleton)

lemma sort_eq_Nil: "sort xs = [] \<longleftrightarrow> xs = []"
  by (metis mset_sort mset_zero_iff)

lemma commaFree_sort: "list_all commaFree (sort xs) = list_all commaFree xs"
  by (simp add: list_all_iff)

subsection \<open>The order of the fields of a row\<close>

text \<open>
  Two association lists with the same entries are the same Go map, read in two orders. The
  label values and label pairs of a row are then the same up to their order, and the lookups
  agree.
\<close>

lemma mset_concat_map_cong:
  assumes "mset xs = mset ys"
  shows "mset (concat (map g xs)) = mset (concat (map g ys))"
proof -
  have "mset (concat (map g zs)) = sum_mset (image_mset (\<lambda>z. mset (g z)) (mset zs))" for zs
    by (induction zs) simp_all
  with assms show ?thesis by simp
qed

lemma labelFields_perm: "mset r' = mset r \<Longrightarrow> mset (labelFields r') = mset (labelFields r)"
  by (simp add: labelFields_def)

lemma labelValues_perm: "mset r' = mset r \<Longrightarrow> mset (labelValues r') = mset (labelValues r)"
  unfolding labelValues_def by (rule mset_concat_map_cong) (rule labelFields_perm)

lemma labelPairsOf_perm: "mset r' = mset r \<Longrightarrow> mset (labelPairsOf r') = mset (labelPairsOf r)"
  unfolding labelPairsOf_def by (rule mset_concat_map_cong) (rule labelFields_perm)

lemma labelsOK_perm: "mset r' = mset r \<Longrightarrow> labelsOK r' = labelsOK r"
  using mset_eq_setD [OF labelFields_perm, of r' r] by (simp add: labelsOK_def list_all_iff)

lemma map_of_perm:
  assumes "mset r' = mset r" and "distinct (map fst r)"
  shows "map_of r' = map_of r"
proof -
  from assms(1) have "mset (map fst r') = mset (map fst r)" by simp
  with assms(2) have "distinct (map fst r')" by (metis mset_eq_imp_distinct_iff)
  moreover from assms(1) have "set r' = set r" by (rule mset_eq_setD)
  ultimately show ?thesis using assms(2) by (simp add: map_of_inject_set)
qed

lemma row_perm:
  assumes "mset r' = mset r" and "distinct (map fst r)" and "rowOK r"
  shows "rowOK r'" and "buildKey r' = buildKey r" and "sampleOf p r' = sampleOf p r"
    and "mset (labelPairsOf r') = mset (labelPairsOf r)"
proof -
  from assms(3) have ok: "labelsOK r" by (simp add: rowOK_def)
  have ok': "labelsOK r'" using labelsOK_perm [OF assms(1)] ok by simp
  have maps: "map_of r' = map_of r" by (rule map_of_perm [OF assms(1,2)])
  from assms(3) ok' show "rowOK r'" by (simp add: rowOK_def maps)
  have "sort (labelValues r') = sort (labelValues r)"
    using labelValues_perm [OF assms(1)] by (simp only: sort_eq_iff)
  then show "buildKey r' = buildKey r"
    by (simp only: buildKey_eq [OF ok] buildKey_eq [OF ok'])
  show "sampleOf p r' = sampleOf p r" by (simp add: sampleOf_def maps)
  show "mset (labelPairsOf r') = mset (labelPairsOf r)" by (rule labelPairsOf_perm [OF assms(1)])
qed

subsection \<open>C2: when two rows get the same key\<close>

text \<open>
  C2, as the code has it. For rows whose label values are strings, \<^verbatim>\<open>buildKey\<close>
  returns a key, the same in whatever order the fields of the row are read; two rows that
  carry the same label values with the same multiplicities (the same multiset), whatever the
  label names, get the same key; and when no label value contains a comma, two rows get the
  same key exactly when they carry the same multiset of label values, or one of them has no
  label and the other has one label whose value is the empty string.
\<close>

theorem buildKey_same_key_iff:
  assumes "labelsOK r1" and "labelsOK r2"
  shows "(\<exists>k1 k2. buildKey r1 = Some k1 \<and> buildKey r2 = Some k2) \<and>
    (\<forall>r. mset r = mset r1 \<longrightarrow> buildKey r = buildKey r1) \<and>
    (mset (labelValues r1) = mset (labelValues r2) \<longrightarrow> buildKey r1 = buildKey r2) \<and>
    (list_all commaFree (labelValues r1) \<and> list_all commaFree (labelValues r2) \<longrightarrow>
       (buildKey r1 = buildKey r2 \<longleftrightarrow>
          mset (labelValues r1) = mset (labelValues r2) \<or>
          (labelValues r1 = [] \<and> labelValues r2 = ['''']) \<or>
          (labelValues r1 = [''''] \<and> labelValues r2 = [])))"
proof (intro conjI impI allI)
  show "\<exists>k1 k2. buildKey r1 = Some k1 \<and> buildKey r2 = Some k2"
    by (simp add: buildKey_eq assms)
  show "buildKey r = buildKey r1" if "mset r = mset r1" for r
  proof -
    have ok: "labelsOK r" using labelsOK_perm [OF that] assms(1) by simp
    have "sort (labelValues r) = sort (labelValues r1)"
      using labelValues_perm [OF that] by (simp only: sort_eq_iff)
    then show ?thesis by (simp only: buildKey_eq [OF ok] buildKey_eq [OF assms(1)])
  qed
  show "buildKey r1 = buildKey r2" if "mset (labelValues r1) = mset (labelValues r2)"
    using that by (simp add: buildKey_eq assms sort_eq_iff [symmetric])
  show "buildKey r1 = buildKey r2 \<longleftrightarrow>
          mset (labelValues r1) = mset (labelValues r2) \<or>
          (labelValues r1 = [] \<and> labelValues r2 = ['''']) \<or>
          (labelValues r1 = [''''] \<and> labelValues r2 = [])"
    if "list_all commaFree (labelValues r1) \<and> list_all commaFree (labelValues r2)"
  proof -
    from that have "list_all commaFree (sort (labelValues r1))"
      and "list_all commaFree (sort (labelValues r2))"
      by (simp_all add: commaFree_sort)
    from strings_Join_eq_iff [OF this] show ?thesis
      by (simp add: buildKey_eq assms sort_eq_iff sort_eq_single sort_eq_Nil)
  qed
qed

text \<open>
  The claim as stated fails in both directions: two rows with the same set of label values
  and different keys (a value carried twice), and twice two rows with the same key and
  different sets of label values (a comma inside a value; an empty value against no label).
\<close>

theorem buildKey_same_key_iff_counterexample:
  "set (labelValues row_two_x) = set (labelValues row_one_x) \<and>
   buildKey row_two_x = Some ''x,x'' \<and> buildKey row_one_x = Some ''x'' \<and>
   set (labelValues row_comma) \<noteq> set (labelValues row_x_y) \<and>
   buildKey row_comma = Some ''x,y'' \<and> buildKey row_x_y = Some ''x,y'' \<and>
   set (labelValues row_empty_value) \<noteq> set (labelValues row_no_label) \<and>
   buildKey row_empty_value = Some [] \<and> buildKey row_no_label = Some []"
  by (simp add: row_two_x_def row_one_x_def row_comma_def row_x_y_def row_empty_value_def
      row_no_label_def row_defs buildKey_def sort_Strings_def)

theorem buildKey_same_key_iff_witness:
  "labelsOK row_x_y \<and> labelsOK row_y_x \<and>
   mset (labelValues row_x_y) = mset (labelValues row_y_x) \<and>
   list_all commaFree (labelValues row_x_y) \<and> list_all commaFree (labelValues row_y_x) \<and>
   buildKey row_x_y = buildKey row_y_x"
proof -
  have ok: "labelsOK row_x_y" "labelsOK row_y_x"
    by (simp_all add: row_x_y_def row_y_x_def row_defs)
  have same: "mset (labelValues row_x_y) = mset (labelValues row_y_x)"
    by (simp add: row_x_y_def row_y_x_def row_defs)
  have free: "list_all commaFree (labelValues row_x_y)" "list_all commaFree (labelValues row_y_x)"
    by (simp_all add: row_x_y_def row_y_x_def row_defs commaFree_def)
  from buildKey_same_key_iff [OF ok] same free show ?thesis using ok by blast
qed

subsection \<open>One pass of the grouping loop\<close>

lemma body_eq:
  assumes "rowOK dp" and "buildKey dp = Some key" and "sampleOf p dp = Some smp"
  shows "responseToTimeseries_body p dp m =
     Some (AList.update key
        (case map_of m key of
           Some ts \<Rightarrow> ts\<lparr>Samples := Samples ts @ [smp]\<rparr>
         | None \<Rightarrow> \<lparr>Labels = labelPairsOf dp, Samples = [smp]\<rparr>) m)"
proof -
  from assms(1) have lp: "labelPairs_loop dp [] = Some (labelPairsOf dp)"
    by (simp add: rowOK_def labelPairs_loop_eq)
  from assms(3) obtain s v where
    s: "assertString (map_of dp ''timestamp'') = Some s" and
    v: "assertFloat64 (map_of dp ''value'') = Some v" and
    smp: "smp = \<lparr>Sample_Timestamp =
                   int64_div (UnixNano (case p s of Some t \<Rightarrow> t | None \<Rightarrow> zeroTime))
                     Millisecond,
                 Sample_Value = v\<rparr>"
    by (auto simp: sampleOf_def split: option.splits)
  show ?thesis
    by (cases "map_of m key")
       (simp_all add: responseToTimeseries_body_def assms(2) lp s v smp Let_def)
qed

lemma body_distinct:
  assumes "rowOK dp" and "responseToTimeseries_body p dp m = Some m'" and "distinct (map fst m)"
  shows "distinct (map fst m')"
proof -
  from assms(1) obtain key where key: "buildKey dp = Some key" using rowOK_buildKey by blast
  from assms(1) obtain smp where smp: "sampleOf p dp = Some smp" using sampleOf_Some by blast
  from assms(2) show ?thesis
    by (simp add: body_eq [OF assms(1) key smp]) (use assms(3) in \<open>auto simp: distinct_update\<close>)
qed

lemma row_perm_single_label:
  assumes "mset r' = mset r" and "distinct (map fst r)" and "rowOK r"
    and "buildKey r = Some key" and "sampleOf p r = Some smp" and "labelPairsOf r = [label]"
  shows "responseToTimeseries_body p r' m =
     Some (AList.update key
        (case map_of m key of
           Some ts \<Rightarrow> ts\<lparr>Samples := Samples ts @ [smp]\<rparr>
         | None \<Rightarrow> \<lparr>Labels = [label], Samples = [smp]\<rparr>) m)"
proof -
  have ok': "rowOK r'" by (rule row_perm(1) [OF assms(1-3)])
  have k': "buildKey r' = Some key" using row_perm(2) [OF assms(1-3)] assms(4) by simp
  have s': "sampleOf p r' = Some smp" using row_perm(3) [OF assms(1-3), of p] assms(5) by simp
  have l': "labelPairsOf r' = [label]" using row_perm(4) [OF assms(1-3)] assms(6) by simp
  show ?thesis unfolding l' [symmetric] by (rule body_eq [OF ok' k' s'])
qed

lemma samplesOf_Cons_same:
  "buildKey dp = Some k \<Longrightarrow> sampleOf p dp = Some smp \<Longrightarrow>
   samplesOf p k (dp # rest) = smp # samplesOf p k rest"
  by (simp add: samplesOf_def rowsOf_def)

lemma samplesOf_Cons_other:
  "buildKey dp \<noteq> Some k \<Longrightarrow> samplesOf p k (dp # rest) = samplesOf p k rest"
  by (simp add: samplesOf_def rowsOf_def)

lemma samplesOf_append:
  "samplesOf p k (xs @ ys) = samplesOf p k xs @ samplesOf p k ys"
  by (simp add: samplesOf_def rowsOf_def List.map_filter_def)

lemma seriesOf_Cons_other:
  "buildKey dp \<noteq> Some k \<Longrightarrow> seriesOf p k (dp # rest) = seriesOf p k rest"
  by (simp add: seriesOf_def rowsOf_def samplesOf_Cons_other split: list.splits)

lemma seriesOf_Cons_same:
  "buildKey dp = Some k \<Longrightarrow> sampleOf p dp = Some smp \<Longrightarrow>
   seriesOf p k (dp # rest) =
     Some \<lparr>Labels = labelPairsOf dp, Samples = smp # samplesOf p k rest\<rparr>"
  by (simp add: seriesOf_def rowsOf_def samplesOf_Cons_same)

lemma seriesOf_dom:
  "(seriesOf p k rows \<noteq> None) = (Some k \<in> buildKey ` set rows)"
proof -
  have "(rowsOf k rows \<noteq> []) = (Some k \<in> buildKey ` set rows)"
    by (force simp: rowsOf_def filter_empty_conv)
  then show ?thesis by (cases "rowsOf k rows") (simp_all add: seriesOf_def)
qed

lemma seriesOf_SomeD:
  assumes "seriesOf p k rows = Some ts"
  shows "\<exists>r \<in> set rows. buildKey r = Some k \<and> Labels ts = labelPairsOf r"
    and "Samples ts = samplesOf p k rows"
proof -
  from assms obtain r rs where r: "rowsOf k rows = r # rs"
    and ts: "ts = \<lparr>Labels = labelPairsOf r, Samples = samplesOf p k rows\<rparr>"
    by (auto simp: seriesOf_def split: list.splits)
  from r have "r \<in> set (rowsOf k rows)" by simp
  then have "r \<in> set rows" "buildKey r = Some k" by (simp_all add: rowsOf_def)
  with ts show "\<exists>r \<in> set rows. buildKey r = Some k \<and> Labels ts = labelPairsOf r" by auto
  from ts show "Samples ts = samplesOf p k rows" by simp
qed

lemma length_map_filter_all:
  "list_all (\<lambda>x. f x \<noteq> None) xs \<Longrightarrow> length (List.map_filter f xs) = length xs"
  by (induction xs) auto

lemma length_samplesOf:
  assumes "list_all rowOK rows"
  shows "length (samplesOf p k rows) = length (rowsOf k rows)"
proof -
  have "list_all (\<lambda>r. sampleOf p r \<noteq> None) (rowsOf k rows)"
    using assms sampleOf_Some [of _ p] by (fastforce simp: list_all_iff rowsOf_def)
  then show ?thesis by (simp add: samplesOf_def length_map_filter_all)
qed

subsection \<open>The grouping loop\<close>

text \<open>
  On rows that satisfy the precondition the loop does not panic, and it extends the map it
  starts from: each series that was there gets the samples of the rows of its key, each new
  key gets the series of its rows.
\<close>

lemma loop_map_of:
  assumes "list_all rowOK rows"
  shows "\<exists>m'. responseToTimeseries_loop p rows m = Some m' \<and>
     (\<forall>k. map_of m' k =
        (case map_of m k of
           Some ts \<Rightarrow> Some (ts\<lparr>Samples := Samples ts @ samplesOf p k rows\<rparr>)
         | None \<Rightarrow> seriesOf p k rows))"
  using assms
proof (induction rows arbitrary: m)
  case Nil
  show ?case
    by (simp add: samplesOf_def rowsOf_def seriesOf_def split: option.splits)
next
  case (Cons r rest)
  from Cons.prems have ok: "rowOK r" and oks: "list_all rowOK rest" by simp_all
  from ok obtain kr where kr: "buildKey r = Some kr" using rowOK_buildKey by blast
  from ok obtain smp where smp: "sampleOf p r = Some smp" using sampleOf_Some by blast
  define m1 where "m1 = AList.update kr
        (case map_of m kr of
           Some ts \<Rightarrow> ts\<lparr>Samples := Samples ts @ [smp]\<rparr>
         | None \<Rightarrow> \<lparr>Labels = labelPairsOf r, Samples = [smp]\<rparr>) m"
  have body: "responseToTimeseries_body p r m = Some m1"
    unfolding m1_def by (rule body_eq [OF ok kr smp])
  from Cons.IH [OF oks, of m1] obtain m' where
    loop: "responseToTimeseries_loop p rest m1 = Some m'" and
    ih: "\<And>k. map_of m' k =
        (case map_of m1 k of
           Some ts \<Rightarrow> Some (ts\<lparr>Samples := Samples ts @ samplesOf p k rest\<rparr>)
         | None \<Rightarrow> seriesOf p k rest)"
    by blast
  have "map_of m' k =
        (case map_of m k of
           Some ts \<Rightarrow> Some (ts\<lparr>Samples := Samples ts @ samplesOf p k (r # rest)\<rparr>)
         | None \<Rightarrow> seriesOf p k (r # rest))" for k
  proof (cases "k = kr")
    case True
    show ?thesis
      by (cases "map_of m kr")
         (simp_all add: ih True m1_def AList.update_conv' samplesOf_Cons_same [OF kr smp]
            seriesOf_Cons_same [OF kr smp])
  next
    case False
    then have "buildKey r \<noteq> Some k" by (simp add: kr)
    with False show ?thesis
      by (cases "map_of m k")
         (simp_all add: ih m1_def AList.update_conv' samplesOf_Cons_other seriesOf_Cons_other)
  qed
  with body loop show ?case by simp
qed

lemma loop_distinct:
  assumes "list_all rowOK rows" and "responseToTimeseries_loop p rows m = Some m'"
    and "distinct (map fst m)"
  shows "distinct (map fst m')"
  using assms
proof (induction rows arbitrary: m)
  case Nil
  then show ?case by simp
next
  case (Cons r rest)
  from Cons.prems(2) obtain m1 where
    body: "responseToTimeseries_body p r m = Some m1" and
    loop: "responseToTimeseries_loop p rest m1 = Some m'"
    by (auto split: option.splits)
  from Cons.prems(1) have "rowOK r" and oks: "list_all rowOK rest" by simp_all
  from body_distinct [OF this(1) body Cons.prems(3)] have "distinct (map fst m1)" .
  from Cons.IH [OF oks loop this] show ?case .
qed

lemma totalSamples_update_new:
  "map_of m k = None \<Longrightarrow>
   totalSamples (map snd (AList.update k v m)) = totalSamples (map snd m) + length (Samples v)"
  by (induction m) (auto simp: totalSamples_def)

lemma totalSamples_update_old:
  "map_of m k = Some ts \<Longrightarrow>
   totalSamples (map snd (AList.update k (ts\<lparr>Samples := Samples ts @ [smp]\<rparr>) m)) =
   Suc (totalSamples (map snd m))"
  by (induction m) (auto simp: totalSamples_def)

lemma loop_total:
  assumes "list_all rowOK rows" and "responseToTimeseries_loop p rows m = Some m'"
  shows "totalSamples (map snd m') = totalSamples (map snd m) + length rows"
  using assms
proof (induction rows arbitrary: m)
  case Nil
  then show ?case by simp
next
  case (Cons r rest)
  from Cons.prems have ok: "rowOK r" and oks: "list_all rowOK rest" by simp_all
  from ok obtain kr where kr: "buildKey r = Some kr" using rowOK_buildKey by blast
  from ok obtain smp where smp: "sampleOf p r = Some smp" using sampleOf_Some by blast
  define m1 where "m1 = AList.update kr
        (case map_of m kr of
           Some ts \<Rightarrow> ts\<lparr>Samples := Samples ts @ [smp]\<rparr>
         | None \<Rightarrow> \<lparr>Labels = labelPairsOf r, Samples = [smp]\<rparr>) m"
  have body: "responseToTimeseries_body p r m = Some m1"
    unfolding m1_def by (rule body_eq [OF ok kr smp])
  have "totalSamples (map snd m1) = Suc (totalSamples (map snd m))"
    by (cases "map_of m kr")
       (simp_all add: m1_def totalSamples_update_new totalSamples_update_old)
  moreover from Cons.prems(2) body have "responseToTimeseries_loop p rest m1 = Some m'"
    by simp
  from Cons.IH [OF oks this]
  have "totalSamples (map snd m') = totalSamples (map snd m1) + length rest" .
  ultimately show ?case by simp
qed

lemma loop_start:
  assumes "list_all rowOK rows"
  shows "\<exists>m. responseToTimeseries_loop p rows [] = Some m \<and>
     responseToTimeseries p rows = Some (map snd m) \<and>
     distinct (map fst m) \<and> (\<forall>k. map_of m k = seriesOf p k rows)"
proof -
  from loop_map_of [OF assms, of p "[]"] obtain m where
    m: "responseToTimeseries_loop p rows [] = Some m" and
    mo: "\<And>k. map_of m k = seriesOf p k rows"
    by auto
  from loop_distinct [OF assms m] have "distinct (map fst m)" by simp
  with m mo show ?thesis by (simp add: responseToTimeseries_def)
qed

lemma keys_of_map:
  assumes "\<And>k. map_of m k = seriesOf p k rows"
  shows "fst ` set m = {k. Some k \<in> buildKey ` set rows}"
proof -
  have "fst ` set m = dom (map_of m)" by (simp add: dom_map_of_conv_image_fst)
  also have "\<dots> = {k. seriesOf p k rows \<noteq> None}" by (simp add: assms dom_def)
  also have "\<dots> = {k. Some k \<in> buildKey ` set rows}" by (simp only: seriesOf_dom)
  finally show ?thesis .
qed

lemma zero_millis: "int64_div (UnixNano zeroTime) Millisecond = - 6795364578871"
  by (simp add: int64_div_def UnixNano_def zeroTime_def Millisecond_def signed_divide_int_def)

lemma scenario_rowOK: "list_all rowOK scenario_rows"
  by (simp add: example_rows row_defs)

subsection \<open>C5: the scenario of the specification\<close>

text \<open>
  C5. On the three rows of the scenario, each read in whatever order of its fields,
  \<^verbatim>\<open>responseToTimeseries\<close> returns exactly two series, in some order: the series of
  host a with the samples 1.0 at 1704067200000 ms and 2.0 at 1704067260000 ms, and the
  series of host b with the one sample 3.0 (at 1704067200000 ms).
\<close>

theorem scenario_two_series:
  assumes "mset r1 = mset row_host_a" and "mset r2 = mset row_host_a2"
    and "mset r3 = mset row_host_b"
  shows "\<exists>timeseries. responseToTimeseries parseRFC3339 [r1, r2, r3] = Some timeseries \<and>
     mset timeseries =
       {#\<lparr>Labels = [\<lparr>Label_Name = ''host'', Label_Value = ''a''\<rparr>],
          Samples = [\<lparr>Sample_Timestamp = 1704067200000, Sample_Value = 1\<rparr>,
                     \<lparr>Sample_Timestamp = 1704067260000, Sample_Value = 2\<rparr>]\<rparr>,
         \<lparr>Labels = [\<lparr>Label_Name = ''host'', Label_Value = ''b''\<rparr>],
          Samples = [\<lparr>Sample_Timestamp = 1704067200000, Sample_Value = 3\<rparr>]\<rparr>#}"
proof -
  have d: "distinct (map fst row_host_a)" "distinct (map fst row_host_a2)"
    "distinct (map fst row_host_b)"
    by (simp_all add: example_rows)
  have ok: "rowOK row_host_a" "rowOK row_host_a2" "rowOK row_host_b"
    by (simp_all add: example_rows row_defs)
  have k: "buildKey row_host_a = Some ''a''" "buildKey row_host_a2 = Some ''a''"
    "buildKey row_host_b = Some ''b''"
    by (simp_all add: example_rows buildKey_def sort_Strings_def assertString_def)
  have l: "labelPairsOf row_host_a = [\<lparr>Label_Name = ''host'', Label_Value = ''a''\<rparr>]"
    "labelPairsOf row_host_a2 = [\<lparr>Label_Name = ''host'', Label_Value = ''a''\<rparr>]"
    "labelPairsOf row_host_b = [\<lparr>Label_Name = ''host'', Label_Value = ''b''\<rparr>]"
    by (simp_all add: example_rows row_defs)
  have s: "sampleOf parseRFC3339 row_host_a =
      Some \<lparr>Sample_Timestamp = 1704067200000, Sample_Value = 1\<rparr>"
    "sampleOf parseRFC3339 row_host_a2 =
      Some \<lparr>Sample_Timestamp = 1704067260000, Sample_Value = 2\<rparr>"
    "sampleOf parseRFC3339 row_host_b =
      Some \<lparr>Sample_Timestamp = 1704067200000, Sample_Value = 3\<rparr>"
    by (simp_all add: example_rows sampleOf_def run_defs parse_defs)
  have "responseToTimeseries parseRFC3339 [r1, r2, r3] =
     Some [\<lparr>Labels = [\<lparr>Label_Name = ''host'', Label_Value = ''a''\<rparr>],
          Samples = [\<lparr>Sample_Timestamp = 1704067200000, Sample_Value = 1\<rparr>,
                     \<lparr>Sample_Timestamp = 1704067260000, Sample_Value = 2\<rparr>]\<rparr>,
         \<lparr>Labels = [\<lparr>Label_Name = ''host'', Label_Value = ''b''\<rparr>],
          Samples = [\<lparr>Sample_Timestamp = 1704067200000, Sample_Value = 3\<rparr>]\<rparr>]"
    by (simp add: responseToTimeseries_def
        row_perm_single_label [OF assms(1) d(1) ok(1) k(1) s(1) l(1)]
        row_perm_single_label [OF assms(2) d(2) ok(2) k(2) s(2) l(2)]
        row_perm_single_label [OF assms(3) d(3) ok(3) k(3) s(3) l(3)])
  then show ?thesis by simp
qed

theorem scenario_two_series_witness:
  "\<exists>timeseries. responseToTimeseries parseRFC3339 scenario_rows = Some timeseries \<and>
     mset timeseries =
       {#\<lparr>Labels = [\<lparr>Label_Name = ''host'', Label_Value = ''a''\<rparr>],
          Samples = [\<lparr>Sample_Timestamp = 1704067200000, Sample_Value = 1\<rparr>,
                     \<lparr>Sample_Timestamp = 1704067260000, Sample_Value = 2\<rparr>]\<rparr>,
         \<lparr>Labels = [\<lparr>Label_Name = ''host'', Label_Value = ''b''\<rparr>],
          Samples = [\<lparr>Sample_Timestamp = 1704067200000, Sample_Value = 3\<rparr>]\<rparr>#}"
  unfolding scenario_rows_def by (rule scenario_two_series) (rule refl)+

subsection \<open>C6: permuting the rows\<close>

text \<open>
  C6, as the code has it. For every sequence of rows that satisfy the row precondition and
  every permutation of it, \<^verbatim>\<open>responseToTimeseries\<close> builds the same set of Series
  Keys, each key once. The series of a key has the label pairs of the first row of that key
  in the input at hand and the samples of the rows of that key in the order of that input.
  So the sets of label pairs per series agree on both orders whenever the rows that share a
  key carry the same label pairs.
\<close>

theorem grouping_under_permutation:
  assumes "mset rows' = mset rows" and "list_all rowOK rows"
  shows "\<exists>m m'. responseToTimeseries_loop p rows [] = Some m \<and>
      responseToTimeseries_loop p rows' [] = Some m' \<and>
      responseToTimeseries p rows = Some (map snd m) \<and>
      responseToTimeseries p rows' = Some (map snd m') \<and>
      distinct (map fst m) \<and> distinct (map fst m') \<and>
      fst ` set m' = fst ` set m \<and>
      (\<forall>k. map_of m k = seriesOf p k rows \<and> map_of m' k = seriesOf p k rows') \<and>
      ((\<forall>r \<in> set rows. \<forall>r' \<in> set rows.
           buildKey r = buildKey r' \<longrightarrow> set (labelPairsOf r) = set (labelPairsOf r')) \<longrightarrow>
       (\<forall>k ts ts'. map_of m k = Some ts \<and> map_of m' k = Some ts' \<longrightarrow>
           set (Labels ts) = set (Labels ts')))"
proof -
  from assms(1) have sets: "set rows' = set rows" by (rule mset_eq_setD)
  with assms(2) have ok': "list_all rowOK rows'" by (simp add: list_all_iff)
  from loop_start [OF assms(2), of p] obtain m where
    m: "responseToTimeseries_loop p rows [] = Some m"
       "responseToTimeseries p rows = Some (map snd m)" "distinct (map fst m)" and
    mo: "\<And>k. map_of m k = seriesOf p k rows"
    by blast
  from loop_start [OF ok', of p] obtain m' where
    m': "responseToTimeseries_loop p rows' [] = Some m'"
       "responseToTimeseries p rows' = Some (map snd m')" "distinct (map fst m')" and
    mo': "\<And>k. map_of m' k = seriesOf p k rows'"
    by blast
  have keys: "fst ` set m' = fst ` set m"
    by (simp only: keys_of_map [of m p rows, OF mo] keys_of_map [of m' p rows', OF mo'] sets)
  have labels: "set (Labels ts) = set (Labels ts')"
    if cons: "\<forall>r \<in> set rows. \<forall>r' \<in> set rows.
           buildKey r = buildKey r' \<longrightarrow> set (labelPairsOf r) = set (labelPairsOf r')"
      and "map_of m k = Some ts \<and> map_of m' k = Some ts'" for k ts ts'
  proof -
    from that(2) have "seriesOf p k rows = Some ts" and "seriesOf p k rows' = Some ts'"
      by (simp_all add: mo mo')
    from seriesOf_SomeD(1) [OF this(1)] obtain r where
      r: "r \<in> set rows" "buildKey r = Some k" "Labels ts = labelPairsOf r" by blast
    from seriesOf_SomeD(1) [OF \<open>seriesOf p k rows' = Some ts'\<close>] obtain r' where
      r'0: "r' \<in> set rows'" and r': "buildKey r' = Some k" "Labels ts' = labelPairsOf r'"
      by blast
    from r'0 have "r' \<in> set rows" by (simp only: sets)
    with cons r(1)
    have "buildKey r = buildKey r' \<longrightarrow> set (labelPairsOf r) = set (labelPairsOf r')"
      by blast
    with r(2) r'(1) have "set (labelPairsOf r) = set (labelPairsOf r')"
      by simp
    with r(3) r'(2) show ?thesis by simp
  qed
  show ?thesis
  proof (intro exI conjI allI impI)
    show "responseToTimeseries_loop p rows [] = Some m" by fact
    show "responseToTimeseries_loop p rows' [] = Some m'" by fact
    show "responseToTimeseries p rows = Some (map snd m)" by fact
    show "responseToTimeseries p rows' = Some (map snd m')" by fact
    show "distinct (map fst m)" by fact
    show "distinct (map fst m')" by fact
    show "fst ` set m' = fst ` set m" by fact
    show "map_of m k = seriesOf p k rows" for k by (rule mo)
    show "map_of m' k = seriesOf p k rows'" for k by (rule mo')
    show "set (Labels ts) = set (Labels ts')"
      if "\<forall>r \<in> set rows. \<forall>r' \<in> set rows.
           buildKey r = buildKey r' \<longrightarrow> set (labelPairsOf r) = set (labelPairsOf r')"
        and "map_of m k = Some ts \<and> map_of m' k = Some ts'" for k ts ts'
      using that by (rule labels)
  qed
qed

text \<open>
  The claim as stated fails: two rows with the label value a under the names host and node
  share a key, and the one series carries the label pair of whichever row comes first.
\<close>

theorem grouping_under_permutation_counterexample:
  "mset [row_node_a, row_host_a] = mset [row_host_a, row_node_a] \<and>
   responseToTimeseries parseRFC3339 [row_host_a, row_node_a] =
     Some [\<lparr>Labels = [\<lparr>Label_Name = ''host'', Label_Value = ''a''\<rparr>],
            Samples = [\<lparr>Sample_Timestamp = 1704067200000, Sample_Value = 1\<rparr>,
                       \<lparr>Sample_Timestamp = 1704067260000, Sample_Value = 2\<rparr>]\<rparr>] \<and>
   responseToTimeseries parseRFC3339 [row_node_a, row_host_a] =
     Some [\<lparr>Labels = [\<lparr>Label_Name = ''node'', Label_Value = ''a''\<rparr>],
            Samples = [\<lparr>Sample_Timestamp = 1704067260000, Sample_Value = 2\<rparr>,
                       \<lparr>Sample_Timestamp = 1704067200000, Sample_Value = 1\<rparr>]\<rparr>] \<and>
   set [\<lparr>Label_Name = ''host'', Label_Value = ''a''\<rparr>] \<noteq>
   set [\<lparr>Label_Name = ''node'', Label_Value = ''a''\<rparr>]"
  by (simp add: row_host_a_def row_node_a_def run_defs parse_defs)

theorem grouping_under_permutation_witness:
  "\<exists>m m'. responseToTimeseries_loop parseRFC3339 scenario_rows [] = Some m \<and>
      responseToTimeseries_loop parseRFC3339 (rev scenario_rows) [] = Some m' \<and>
      fst ` set m' = fst ` set m \<and>
      (\<forall>k. map_of m k = seriesOf parseRFC3339 k scenario_rows \<and>
           map_of m' k = seriesOf parseRFC3339 k (rev scenario_rows)) \<and>
      (\<forall>k ts ts'. map_of m k = Some ts \<and> map_of m' k = Some ts' \<longrightarrow>
           set (Labels ts) = set (Labels ts'))"
proof -
  have perm: "mset (rev scenario_rows) = mset scenario_rows" by simp
  have keys: "buildKey row_host_a = Some ''a''" "buildKey row_host_a2 = Some ''a''"
    "buildKey row_host_b = Some ''b''"
    by (simp_all add: row_host_a_def row_host_a2_def row_host_b_def buildKey_def
        sort_Strings_def assertString_def)
  have pairs: "labelPairsOf row_host_a = [\<lparr>Label_Name = ''host'', Label_Value = ''a''\<rparr>]"
    "labelPairsOf row_host_a2 = [\<lparr>Label_Name = ''host'', Label_Value = ''a''\<rparr>]"
    by (simp_all add: row_host_a_def row_host_a2_def row_defs)
  have cons: "\<forall>r \<in> set scenario_rows. \<forall>r' \<in> set scenario_rows.
      buildKey r = buildKey r' \<longrightarrow> set (labelPairsOf r) = set (labelPairsOf r')"
    by (simp add: scenario_rows_def keys pairs)
  from grouping_under_permutation [OF perm scenario_rowOK, of parseRFC3339] cons
  show ?thesis by blast
qed

subsection \<open>C7: the same label values under other names\<close>

text \<open>
  C7, as the code has it. Two rows that satisfy the row precondition and carry the same
  label values with the same multiplicities (the same multiset), under whatever label
  names, collapse into one series: given alone, the result is the single series with the
  label pairs of the first row and both samples in order; within any sequence of rows that
  satisfy the precondition, both are rows of the one series of their common key.
\<close>

theorem same_values_one_series:
  assumes "rowOK r1" and "rowOK r2" and "mset (labelValues r1) = mset (labelValues r2)"
  shows "(\<exists>s1 s2. sampleOf parse r1 = Some s1 \<and> sampleOf parse r2 = Some s2 \<and>
            responseToTimeseries parse [r1, r2] =
              Some [\<lparr>Labels = labelPairsOf r1, Samples = [s1, s2]\<rparr>]) \<and>
         (\<forall>rows. list_all rowOK rows \<and> r1 \<in> set rows \<and> r2 \<in> set rows \<longrightarrow>
            (\<exists>m key ts. responseToTimeseries_loop parse rows [] = Some m \<and>
               responseToTimeseries parse rows = Some (map snd m) \<and> distinct (map fst m) \<and>
               buildKey r1 = Some key \<and> buildKey r2 = Some key \<and> map_of m key = Some ts \<and>
               Samples ts = samplesOf parse key rows \<and>
               r1 \<in> set (rowsOf key rows) \<and> r2 \<in> set (rowsOf key rows)))"
proof -
  from assms(1) obtain key where k1: "buildKey r1 = Some key" using rowOK_buildKey by blast
  from assms have "buildKey r1 = buildKey r2"
    by (simp add: rowOK_def buildKey_eq sort_eq_iff [symmetric])
  with k1 have k2: "buildKey r2 = Some key" by simp
  from assms(1) obtain s1 where s1: "sampleOf parse r1 = Some s1" using sampleOf_Some by blast
  from assms(2) obtain s2 where s2: "sampleOf parse r2 = Some s2" using sampleOf_Some by blast
  have two: "responseToTimeseries parse [r1, r2] =
      Some [\<lparr>Labels = labelPairsOf r1, Samples = [s1, s2]\<rparr>]"
    by (simp add: responseToTimeseries_def body_eq [OF assms(1) k1 s1] body_eq [OF assms(2) k2 s2])
  have gen: "\<exists>m key ts. responseToTimeseries_loop parse rows [] = Some m \<and>
               responseToTimeseries parse rows = Some (map snd m) \<and> distinct (map fst m) \<and>
               buildKey r1 = Some key \<and> buildKey r2 = Some key \<and> map_of m key = Some ts \<and>
               Samples ts = samplesOf parse key rows \<and>
               r1 \<in> set (rowsOf key rows) \<and> r2 \<in> set (rowsOf key rows)"
    if "list_all rowOK rows \<and> r1 \<in> set rows \<and> r2 \<in> set rows" for rows
  proof -
    from that have ok: "list_all rowOK rows" and in1: "r1 \<in> set rows" and in2: "r2 \<in> set rows"
      by simp_all
    from loop_start [OF ok, of parse] obtain m where
      m: "responseToTimeseries_loop parse rows [] = Some m"
         "responseToTimeseries parse rows = Some (map snd m)" "distinct (map fst m)" and
      mo: "\<And>k. map_of m k = seriesOf parse k rows"
      by blast
    from in1 k1 have "Some key \<in> buildKey ` set rows" by force
    then have "seriesOf parse key rows \<noteq> None" by (simp only: seriesOf_dom)
    then obtain ts where ts: "seriesOf parse key rows = Some ts" by blast
    from seriesOf_SomeD(2) [OF ts] have smp: "Samples ts = samplesOf parse key rows" .
    from in1 in2 k1 k2 have "r1 \<in> set (rowsOf key rows)" "r2 \<in> set (rowsOf key rows)"
      by (simp_all add: rowsOf_def)
    with m mo [of key] ts smp k1 k2 show ?thesis by simp
  qed
  from s1 s2 two gen show ?thesis by blast
qed

text \<open>
  The claim as stated fails: a row that carries the value x under two names and a row that
  carries it under one name have the same set of label values, under different names, and
  end in two series.
\<close>

theorem same_values_one_series_counterexample:
  "set (labelValues row_two_x) = set (labelValues row_one_x) \<and>
   set (map fst (labelFields row_two_x)) \<noteq> set (map fst (labelFields row_one_x)) \<and>
   responseToTimeseries parseRFC3339 [row_two_x, row_one_x] =
     Some [\<lparr>Labels = [\<lparr>Label_Name = ''instance'', Label_Value = ''x''\<rparr>,
                      \<lparr>Label_Name = ''job'', Label_Value = ''x''\<rparr>],
            Samples = [\<lparr>Sample_Timestamp = 1704067200000, Sample_Value = 1\<rparr>]\<rparr>,
           \<lparr>Labels = [\<lparr>Label_Name = ''host'', Label_Value = ''x''\<rparr>],
            Samples = [\<lparr>Sample_Timestamp = 1704067260000, Sample_Value = 2\<rparr>]\<rparr>]"
  by (simp add: row_two_x_def row_one_x_def run_defs parse_defs row_defs)

theorem same_values_one_series_witness:
  "rowOK row_x_y \<and> rowOK row_y_x \<and> mset (labelValues row_x_y) = mset (labelValues row_y_x) \<and>
   (\<exists>s1 s2. sampleOf parseRFC3339 row_x_y = Some s1 \<and> sampleOf parseRFC3339 row_y_x = Some s2 \<and>
      responseToTimeseries parseRFC3339 [row_x_y, row_y_x] =
        Some [\<lparr>Labels = labelPairsOf row_x_y, Samples = [s1, s2]\<rparr>])"
proof -
  have ok: "rowOK row_x_y" "rowOK row_y_x"
    by (simp_all add: row_x_y_def row_y_x_def row_defs)
  have same: "mset (labelValues row_x_y) = mset (labelValues row_y_x)"
    by (simp add: row_x_y_def row_y_x_def row_defs)
  from same_values_one_series [OF ok same, of parseRFC3339] ok same show ?thesis by blast
qed

subsection \<open>C8: a timestamp that does not parse\<close>

text \<open>
  C8. For a row with string label values and a numeric value whose timestamp string fails to
  parse, the pass of the loop over that row appends to the row's series (a new one when the
  key is new) a sample whose time is the zero time converted to milliseconds, and the loop
  goes on with the remaining rows. Converted by the code, in 64-bit arithmetic that wraps
  around, the zero time is -6795364578871 ms. So wherever the row stands among rows that
  satisfy the row precondition, the response is built, it holds the series of the row's key,
  and the samples of that series are those of the rows before, then the sample of the row at
  -6795364578871 ms with the row's value, then those of the rows after; the samples of the
  response number as many as the rows.
\<close>

theorem unparsable_timestamp_zero_time:
  assumes "labelsOK datapoint"
    and "map_of datapoint ''timestamp'' = Some (IString s)"
    and "parse s = None"
    and "map_of datapoint ''value'' = Some (IFloat64 v)"
  shows "\<exists>key. buildKey datapoint = Some key \<and>
     responseToTimeseries_loop parse (datapoint # rest) m =
       responseToTimeseries_loop parse rest
         (AList.update key
            (case map_of m key of
               Some ts \<Rightarrow>
                 ts\<lparr>Samples := Samples ts @
                   [\<lparr>Sample_Timestamp = int64_div (UnixNano zeroTime) Millisecond,
                     Sample_Value = v\<rparr>]\<rparr>
             | None \<Rightarrow>
                 \<lparr>Labels = labelPairsOf datapoint,
                  Samples = [\<lparr>Sample_Timestamp = int64_div (UnixNano zeroTime) Millisecond,
                              Sample_Value = v\<rparr>]\<rparr>) m) \<and>
     int64_div (UnixNano zeroTime) Millisecond = - 6795364578871 \<and>
     (\<forall>before. list_all rowOK before \<and> list_all rowOK rest \<longrightarrow>
        (\<exists>labelsToSeries ts.
           responseToTimeseries_loop parse (before @ datapoint # rest) [] = Some labelsToSeries \<and>
           responseToTimeseries parse (before @ datapoint # rest) = Some (map snd labelsToSeries) \<and>
           map_of labelsToSeries key = Some ts \<and> ts \<in> set (map snd labelsToSeries) \<and>
           Samples ts =
             samplesOf parse key before @
             \<lparr>Sample_Timestamp = - 6795364578871, Sample_Value = v\<rparr> #
             samplesOf parse key rest \<and>
           totalSamples (map snd labelsToSeries) = Suc (length before + length rest)))"
proof -
  from assms have ok: "rowOK datapoint"
    by (simp add: rowOK_def assertString_def assertFloat64_def)
  then obtain key where key: "buildKey datapoint = Some key" using rowOK_buildKey by blast
  have smp0: "sampleOf parse datapoint =
      Some \<lparr>Sample_Timestamp = int64_div (UnixNano zeroTime) Millisecond, Sample_Value = v\<rparr>"
    by (simp add: sampleOf_def assms assertString_def assertFloat64_def)
  then have smp: "sampleOf parse datapoint =
      Some \<lparr>Sample_Timestamp = - 6795364578871, Sample_Value = v\<rparr>"
    by (simp only: zero_millis)
  have result: "\<exists>labelsToSeries ts.
           responseToTimeseries_loop parse (before @ datapoint # rest) [] = Some labelsToSeries \<and>
           responseToTimeseries parse (before @ datapoint # rest) = Some (map snd labelsToSeries) \<and>
           map_of labelsToSeries key = Some ts \<and> ts \<in> set (map snd labelsToSeries) \<and>
           Samples ts =
             samplesOf parse key before @
             \<lparr>Sample_Timestamp = - 6795364578871, Sample_Value = v\<rparr> #
             samplesOf parse key rest \<and>
           totalSamples (map snd labelsToSeries) = Suc (length before + length rest)"
    if "list_all rowOK before \<and> list_all rowOK rest" for before
  proof -
    from that ok have oks: "list_all rowOK (before @ datapoint # rest)" by simp
    from loop_start [OF oks, of parse] obtain lts where
      lts: "responseToTimeseries_loop parse (before @ datapoint # rest) [] = Some lts"
        "responseToTimeseries parse (before @ datapoint # rest) = Some (map snd lts)" and
      mo: "\<And>k. map_of lts k = seriesOf parse k (before @ datapoint # rest)"
      by blast
    from key have "Some key \<in> buildKey ` set (before @ datapoint # rest)" by force
    then have "seriesOf parse key (before @ datapoint # rest) \<noteq> None"
      by (simp only: seriesOf_dom)
    then obtain ts where ts: "seriesOf parse key (before @ datapoint # rest) = Some ts"
      by blast
    from seriesOf_SomeD(2) [OF ts]
    have samples: "Samples ts =
        samplesOf parse key before @
        \<lparr>Sample_Timestamp = - 6795364578871, Sample_Value = v\<rparr> # samplesOf parse key rest"
      by (simp add: samplesOf_append samplesOf_Cons_same [OF key smp])
    from loop_total [OF oks lts(1)]
    have total: "totalSamples (map snd lts) = Suc (length before + length rest)"
      by (simp add: totalSamples_def)
    from ts have mk: "map_of lts key = Some ts" by (simp add: mo)
    then have "(key, ts) \<in> set lts" by (rule map_of_SomeD)
    then have mem: "ts \<in> set (map snd lts)" by force
    from lts mk mem samples total show ?thesis by blast
  qed
  have step: "responseToTimeseries_loop parse (datapoint # rest) m =
       responseToTimeseries_loop parse rest
         (AList.update key
            (case map_of m key of
               Some ts \<Rightarrow>
                 ts\<lparr>Samples := Samples ts @
                   [\<lparr>Sample_Timestamp = int64_div (UnixNano zeroTime) Millisecond,
                     Sample_Value = v\<rparr>]\<rparr>
             | None \<Rightarrow>
                 \<lparr>Labels = labelPairsOf datapoint,
                  Samples = [\<lparr>Sample_Timestamp = int64_div (UnixNano zeroTime) Millisecond,
                              Sample_Value = v\<rparr>]\<rparr>) m)"
    by (simp add: body_eq [OF ok key smp0, of m])
  show ?thesis
  proof (intro exI [of _ key] conjI allI impI)
    show "buildKey datapoint = Some key" by fact
    show "int64_div (UnixNano zeroTime) Millisecond = - 6795364578871" by (rule zero_millis)
  qed (use step result in \<open>blast+\<close>)
qed

theorem unparsable_timestamp_zero_time_witness:
  "labelsOK row_bad_timestamp \<and>
   map_of row_bad_timestamp ''timestamp'' = Some (IString ''yesterday'') \<and>
   parseRFC3339 ''yesterday'' = None \<and>
   map_of row_bad_timestamp ''value'' = Some (IFloat64 5) \<and>
   list_all rowOK [row_host_a] \<and> list_all rowOK [row_host_a2] \<and>
   (\<exists>labelsToSeries ts.
      responseToTimeseries parseRFC3339 [row_host_a, row_bad_timestamp, row_host_a2] =
        Some (map snd labelsToSeries) \<and>
      map_of labelsToSeries ''a'' = Some ts \<and>
      Samples ts =
        [\<lparr>Sample_Timestamp = 1704067200000, Sample_Value = 1\<rparr>,
         \<lparr>Sample_Timestamp = - 6795364578871, Sample_Value = 5\<rparr>,
         \<lparr>Sample_Timestamp = 1704067260000, Sample_Value = 2\<rparr>] \<and>
      totalSamples (map snd labelsToSeries) = 3)"
proof -
  have h: "labelsOK row_bad_timestamp"
    "map_of row_bad_timestamp ''timestamp'' = Some (IString ''yesterday'')"
    "parseRFC3339 ''yesterday'' = None"
    "map_of row_bad_timestamp ''value'' = Some (IFloat64 5)"
    by (simp_all add: row_bad_timestamp_def row_defs parseRFC3339_def)
  have oks: "list_all rowOK [row_host_a]" "list_all rowOK [row_host_a2]"
    by (simp_all add: row_host_a_def row_host_a2_def row_defs)
  have key: "buildKey row_bad_timestamp = Some ''a''"
    by (simp add: row_bad_timestamp_def buildKey_def sort_Strings_def assertString_def)
  have s1: "samplesOf parseRFC3339 ''a'' [row_host_a] =
      [\<lparr>Sample_Timestamp = 1704067200000, Sample_Value = 1\<rparr>]"
    by (simp add: samplesOf_def rowsOf_def sampleOf_def row_host_a_def run_defs parse_defs)
  have s2: "samplesOf parseRFC3339 ''a'' [row_host_a2] =
      [\<lparr>Sample_Timestamp = 1704067260000, Sample_Value = 2\<rparr>]"
    by (simp add: samplesOf_def rowsOf_def sampleOf_def row_host_a2_def run_defs parse_defs)
  from unparsable_timestamp_zero_time
    [where datapoint = row_bad_timestamp and s = "''yesterday''" and parse = parseRFC3339
       and v = 5 and rest = "[row_host_a2]" and m = "[]", OF h]
  obtain k where
    k: "buildKey row_bad_timestamp = Some k" and
    r: "\<forall>before. list_all rowOK before \<and> list_all rowOK [row_host_a2] \<longrightarrow>
        (\<exists>labelsToSeries ts.
           responseToTimeseries_loop parseRFC3339 (before @ row_bad_timestamp # [row_host_a2]) [] =
             Some labelsToSeries \<and>
           responseToTimeseries parseRFC3339 (before @ row_bad_timestamp # [row_host_a2]) =
             Some (map snd labelsToSeries) \<and>
           map_of labelsToSeries k = Some ts \<and> ts \<in> set (map snd labelsToSeries) \<and>
           Samples ts =
             samplesOf parseRFC3339 k before @
             \<lparr>Sample_Timestamp = - 6795364578871, Sample_Value = 5\<rparr> #
             samplesOf parseRFC3339 k [row_host_a2] \<and>
           totalSamples (map snd labelsToSeries) = Suc (length before + length [row_host_a2]))"
    by blast
  from k key have ka: "k = ''a''" by simp
  from r oks obtain lts ts where
    "responseToTimeseries parseRFC3339 ([row_host_a] @ row_bad_timestamp # [row_host_a2]) =
       Some (map snd lts)"
    "map_of lts k = Some ts"
    "Samples ts =
       samplesOf parseRFC3339 k [row_host_a] @
       \<lparr>Sample_Timestamp = - 6795364578871, Sample_Value = 5\<rparr> #
       samplesOf parseRFC3339 k [row_host_a2]"
    "totalSamples (map snd lts) = Suc (length [row_host_a] + length [row_host_a2])"
    by blast
  then have "responseToTimeseries parseRFC3339 [row_host_a, row_bad_timestamp, row_host_a2] =
        Some (map snd lts) \<and>
      map_of lts ''a'' = Some ts \<and>
      Samples ts =
        [\<lparr>Sample_Timestamp = 1704067200000, Sample_Value = 1\<rparr>,
         \<lparr>Sample_Timestamp = - 6795364578871, Sample_Value = 5\<rparr>,
         \<lparr>Sample_Timestamp = 1704067260000, Sample_Value = 2\<rparr>] \<and>
      totalSamples (map snd lts) = 3"
    by (simp add: ka s1 s2)
  then have "\<exists>labelsToSeries ts.
      responseToTimeseries parseRFC3339 [row_host_a, row_bad_timestamp, row_host_a2] =
        Some (map snd labelsToSeries) \<and>
      map_of labelsToSeries ''a'' = Some ts \<and>
      Samples ts =
        [\<lparr>Sample_Timestamp = 1704067200000, Sample_Value = 1\<rparr>,
         \<lparr>Sample_Timestamp = - 6795364578871, Sample_Value = 5\<rparr>,
         \<lparr>Sample_Timestamp = 1704067260000, Sample_Value = 2\<rparr>] \<and>
      totalSamples (map snd labelsToSeries) = 3"
    by blast
  with h oks show ?thesis by blast
qed

subsection \<open>C10: one sample for each row\<close>

text \<open>
  C10. For every sequence of rows that satisfy the row precondition,
  \<^verbatim>\<open>responseToTimeseries\<close> returns, and the samples of all the series it returns
  number as many as the rows: every row has a key with a series, and the series of a key
  holds the samples of the rows of that key, one for each.
\<close>

theorem one_sample_per_row:
  assumes "list_all rowOK rows"
  shows "\<exists>m. responseToTimeseries_loop parse rows [] = Some m \<and>
     responseToTimeseries parse rows = Some (map snd m) \<and>
     totalSamples (map snd m) = length rows \<and>
     (\<forall>r \<in> set rows. \<exists>k ts. buildKey r = Some k \<and> map_of m k = Some ts) \<and>
     (\<forall>k ts. map_of m k = Some ts \<longrightarrow>
        Samples ts = samplesOf parse k rows \<and> length (Samples ts) = length (rowsOf k rows))"
proof -
  from loop_start [OF assms, of parse] obtain m where
    m: "responseToTimeseries_loop parse rows [] = Some m"
       "responseToTimeseries parse rows = Some (map snd m)" and
    mo: "\<And>k. map_of m k = seriesOf parse k rows"
    by blast
  from loop_total [OF assms m(1)] have total: "totalSamples (map snd m) = length rows"
    by (simp add: totalSamples_def)
  have each: "\<exists>k ts. buildKey r = Some k \<and> map_of m k = Some ts" if "r \<in> set rows" for r
  proof -
    from that assms have "rowOK r" by (simp add: list_all_iff)
    then obtain k where k: "buildKey r = Some k" using rowOK_buildKey by blast
    with that have "Some k \<in> buildKey ` set rows" by force
    then have "seriesOf parse k rows \<noteq> None" by (simp only: seriesOf_dom)
    with k show ?thesis by (auto simp: mo)
  qed
  have series: "Samples ts = samplesOf parse k rows \<and> length (Samples ts) = length (rowsOf k rows)"
    if "map_of m k = Some ts" for k ts
  proof -
    from that have "seriesOf parse k rows = Some ts" by (simp add: mo)
    from seriesOf_SomeD(2) [OF this] show ?thesis
      by (simp add: length_samplesOf [OF assms])
  qed
  show ?thesis
  proof (intro exI [of _ m] conjI ballI allI impI)
    show "responseToTimeseries_loop parse rows [] = Some m" by fact
    show "responseToTimeseries parse rows = Some (map snd m)" by fact
    show "totalSamples (map snd m) = length rows" by fact
    show "\<exists>k ts. buildKey r = Some k \<and> map_of m k = Some ts" if "r \<in> set rows" for r
      using that by (rule each)
    show "Samples ts = samplesOf parse k rows" if "map_of m k = Some ts" for k ts
      using series [OF that] by (rule conjunct1)
    show "length (Samples ts) = length (rowsOf k rows)" if "map_of m k = Some ts" for k ts
      using series [OF that] by (rule conjunct2)
  qed
qed

theorem one_sample_per_row_witness:
  "list_all rowOK scenario_rows \<and>
   (\<exists>m. responseToTimeseries_loop parseRFC3339 scenario_rows [] = Some m \<and>
      responseToTimeseries parseRFC3339 scenario_rows = Some (map snd m) \<and>
      totalSamples (map snd m) = 3)"
proof -
  have len: "length scenario_rows = 3" by (simp add: scenario_rows_def)
  from one_sample_per_row [OF scenario_rowOK, of parseRFC3339]
  obtain m where
    "responseToTimeseries_loop parseRFC3339 scenario_rows [] = Some m"
    "responseToTimeseries parseRFC3339 scenario_rows = Some (map snd m)"
    "totalSamples (map snd m) = length scenario_rows"
    by blast
  with len have "\<exists>m. responseToTimeseries_loop parseRFC3339 scenario_rows [] = Some m \<and>
      responseToTimeseries parseRFC3339 scenario_rows = Some (map snd m) \<and>
      totalSamples (map snd m) = 3"
    by auto
  with scenario_rowOK show ?thesis by (rule conjI)
qed

subsection \<open>C1: a request that does not hold exactly one query\<close>

text \<open>
  C1. When the body is read, decompressed and deserialized, and the Read Request holds a
  number of queries other than one, \<^verbatim>\<open>Handle\<close> responds with HTTP 400 and the message
  "Can only handle one query.", and the store client's \<^verbatim>\<open>Read\<close> is not called.
\<close>

theorem rejects_query_count:
  assumes "ioutil_ReadAll e = (compressed, None)"
    and "snappy_Decode e compressed = (reqBuf, None)"
    and "proto_Unmarshal e reqBuf = (req, None)"
    and "length (Queries req) \<noteq> 1"
  shows "Handle e = Returned [Http_Error ''Can only handle one query.'' 400] \<and>
         storeReads (callsOf (Handle e)) = []"
  using assms by (simp add: Handle_defs callsOf_def storeReads_def)

theorem rejects_query_count_witness:
  "Handle world_two_queries = Returned [Http_Error ''Can only handle one query.'' 400] \<and>
   storeReads (callsOf (Handle world_two_queries)) = []"
proof -
  have "ioutil_ReadAll world_two_queries = ([4, 12, 10, 0, 10, 0], None)"
    and "snappy_Decode world_two_queries [4, 12, 10, 0, 10, 0] = ([10, 0, 10, 0], None)"
    and "proto_Unmarshal world_two_queries [10, 0, 10, 0] =
           (\<lparr>Queries = [''q1'', ''q2'']\<rparr>, None)"
    and "length (Queries \<lparr>Queries = [''q1'', ''q2'']\<rparr>) \<noteq> 1"
    by (simp_all add: world_two_queries_def world_ok_def)
  then show ?thesis by (rule rejects_query_count)
qed

subsection \<open>C9: the store fails\<close>

text \<open>
  C9. For a request that decodes to exactly one query, when the store client's
  \<^verbatim>\<open>Read\<close> returns an error, \<^verbatim>\<open>Handle\<close> responds with HTTP 500 and the text of
  that error, and writes no response body: \<^verbatim>\<open>w.Write\<close> is not called.
\<close>

theorem store_error_is_500:
  assumes "ioutil_ReadAll e = (compressed, None)"
    and "snappy_Decode e compressed = (reqBuf, None)"
    and "proto_Unmarshal e reqBuf = (req, None)"
    and "length (Queries req) = 1"
    and "reader_Read e req = (datapoints, Some msg)"
  shows "Handle e = Returned [Read req, Http_Error msg 500] \<and>
         bodiesWritten (callsOf (Handle e)) = []"
  using assms by (simp add: Handle_defs callsOf_def bodiesWritten_def)

theorem store_error_is_500_witness:
  "Handle world_store_down =
     Returned [Read \<lparr>Queries = [''q'']\<rparr>, Http_Error ''connection refused'' 500] \<and>
   bodiesWritten (callsOf (Handle world_store_down)) = []"
proof -
  have "ioutil_ReadAll world_store_down = ([2, 4, 10, 0], None)"
    and "snappy_Decode world_store_down [2, 4, 10, 0] = ([10, 0], None)"
    and "proto_Unmarshal world_store_down [10, 0] = (\<lparr>Queries = [''q'']\<rparr>, None)"
    and "length (Queries \<lparr>Queries = [''q'']\<rparr>) = 1"
    and "reader_Read world_store_down \<lparr>Queries = [''q'']\<rparr> = ([], Some ''connection refused'')"
    by (simp_all add: world_store_down_def world_ok_def)
  then show ?thesis by (rule store_error_is_500)
qed

subsection \<open>C3: a body that does not deserialize\<close>

text \<open>
  C3 does not hold of the code. When \<^verbatim>\<open>proto.Unmarshal\<close> fails, the handler takes the
  text of its response from \<^verbatim>\<open>err\<close>, the error of the decompression, which is nil at
  that point, and not from \<^verbatim>\<open>err1\<close>: \<^verbatim>\<open>err.Error()\<close> panics and no response is
  written. Here on the body \<^verbatim>\<open>01 00 ff\<close>.
\<close>

theorem unmarshal_failure_panics:
  "ioutil_ReadAll world_bad_proto = ([1, 0, 255], None) \<and>
   snappy_Decode world_bad_proto [1, 0, 255] = ([255], None) \<and>
   snd (proto_Unmarshal world_bad_proto [255]) = Some ''unexpected EOF'' \<and>
   Handle world_bad_proto = Panicked []"
  by (simp add: world_bad_proto_def world_ok_def Handle_defs)

subsection \<open>C4: the handler returns\<close>

text \<open>
  C4, as the code has it. When the request does not fail to deserialize (its body is not
  read, or not decompressed, or it deserializes) and the rows that the store client returns
  satisfy the row precondition, \<^verbatim>\<open>Handle\<close> returns to its caller and has responded:
  its last call on the response writer is an error response with HTTP 400 or 500, or it has
  set the two headers and written the response body.
\<close>

theorem Handle_returns:
  assumes deser: "\<forall>compressed reqBuf.
        ioutil_ReadAll e = (compressed, None) \<and> snappy_Decode e compressed = (reqBuf, None) \<longrightarrow>
        snd (proto_Unmarshal e reqBuf) = None"
    and rows: "\<forall>req. snd (reader_Read e req) = None \<longrightarrow>
        list_all rowOK (fst (reader_Read e req))"
  shows "\<exists>calls. Handle e = Returned calls \<and>
     ((\<exists>pre msg. calls = pre @ [Http_Error msg 400] \<or> calls = pre @ [Http_Error msg 500]) \<or>
      (\<exists>req body. calls = [Read req, Header_Set ''Content-Type'' ''application/x-protobuf'',
           Header_Set ''Content-Encoding'' ''snappy'', Write body]))"
proof -
  obtain compressed err0 where ra: "ioutil_ReadAll e = (compressed, err0)" by force
  show ?thesis
  proof (cases err0)
    case (Some msg)
    with ra have "Handle e = Returned ([] @ [Http_Error msg 400])" by (simp add: Handle_defs)
    then show ?thesis by blast
  next
    case None
    note err0 = this
    obtain reqBuf err where sd: "snappy_Decode e compressed = (reqBuf, err)" by force
    show ?thesis
    proof (cases err)
      case (Some msg)
      with ra err0 sd have "Handle e = Returned ([] @ [Http_Error msg 400])"
        by (simp add: Handle_defs)
      then show ?thesis by blast
    next
      case None
      note err = this
      obtain req err1 where pu: "proto_Unmarshal e reqBuf = (req, err1)" by force
      from deser ra err0 sd err pu have err1: "err1 = None" by simp
      show ?thesis
      proof (cases "length (Queries req) \<noteq> 1")
        case True
        with ra err0 sd err pu err1
        have "Handle e = Returned ([] @ [Http_Error ''Can only handle one query.'' 400])"
          by (simp add: Handle_defs)
        then show ?thesis by blast
      next
        case False
        note one = this
        obtain datapoints errR where rr: "reader_Read e req = (datapoints, errR)" by force
        show ?thesis
        proof (cases errR)
          case (Some msg)
          with ra err0 sd err pu err1 one rr
          have "Handle e = Returned ([Read req] @ [Http_Error msg 500])"
            by (simp add: Handle_defs)
          then show ?thesis by blast
        next
          case None
          note errR = this
          from rows rr errR have "list_all rowOK datapoints"
            by (metis fst_conv snd_conv)
          from loop_start [OF this, of "time_Parse e"] obtain timeseries where
            rt: "responseToTimeseries (time_Parse e) datapoints = Some timeseries" by blast
          obtain data errM where
            pm: "proto_Marshal e \<lparr>Results = [\<lparr>Timeseries = timeseries\<rparr>]\<rparr> = (data, errM)"
            by force
          show ?thesis
          proof (cases errM)
            case (Some msg)
            with ra err0 sd err pu err1 one rr errR rt pm
            have "Handle e = Returned ([Read req] @ [Http_Error msg 500])"
              by (simp add: Handle_defs)
            then show ?thesis by blast
          next
            case None
            note errM = this
            show ?thesis
            proof (cases "w_Write e (snappy_Encode e data)")
              case None
              with ra err0 sd err pu err1 one rr errR rt pm errM
              have "Handle e = Returned [Read req,
                  Header_Set ''Content-Type'' ''application/x-protobuf'',
                  Header_Set ''Content-Encoding'' ''snappy'', Write (snappy_Encode e data)]"
                by (simp add: Handle_defs)
              then show ?thesis by blast
            next
              case (Some msg)
              with ra err0 sd err pu err1 one rr errR rt pm errM
              have "Handle e = Returned ([Read req,
                  Header_Set ''Content-Type'' ''application/x-protobuf'',
                  Header_Set ''Content-Encoding'' ''snappy'', Write (snappy_Encode e data)] @
                  [Http_Error msg 500])"
                by (simp add: Handle_defs)
              then show ?thesis by blast
            qed
          qed
        qed
      qed
    qed
  qed
qed

text \<open>
  The claim as stated fails: a row of the store with a numeric label makes the type
  assertion \<^verbatim>\<open>v.(string)\<close> of \<^verbatim>\<open>buildKey\<close> panic, after the store was read and
  before anything is written.
\<close>

theorem Handle_returns_counterexample:
  "Handle world_numeric_label = Panicked [Read \<lparr>Queries = [''q'']\<rparr>]"
  by (simp add: world_numeric_label_def world_ok_def Handle_defs run_defs)

theorem Handle_returns_witness:
  "Handle world_ok =
     Returned [Read \<lparr>Queries = [''q'']\<rparr>, Header_Set ''Content-Type'' ''application/x-protobuf'',
       Header_Set ''Content-Encoding'' ''snappy'', Write [2, 4, 10, 0]]"
proof -
  have d: "\<forall>compressed reqBuf.
        ioutil_ReadAll world_ok = (compressed, None) \<and>
        snappy_Decode world_ok compressed = (reqBuf, None) \<longrightarrow>
        snd (proto_Unmarshal world_ok reqBuf) = None"
    by (simp add: world_ok_def)
  have r: "\<forall>req. snd (reader_Read world_ok req) = None \<longrightarrow>
        list_all rowOK (fst (reader_Read world_ok req))"
    by (simp add: world_ok_def scenario_rowOK)
  from Handle_returns [OF d r] obtain calls where
    c: "Handle world_ok = Returned calls" by blast
  have "callsOf (Handle world_ok) = [Read \<lparr>Queries = [''q'']\<rparr>,
       Header_Set ''Content-Type'' ''application/x-protobuf'',
       Header_Set ''Content-Encoding'' ''snappy'', Write [2, 4, 10, 0]]"
    by (simp add: world_ok_def Handle_defs callsOf_def example_rows run_defs parse_defs)
  with c show ?thesis by (simp add: callsOf_def)
qed

end
